theory Spec2Isabelle
  imports Main "HOL-Library.Word"
begin

section \<open>Values exchanged with the operating system and the codecs\<close>

type_synonym byte = "8 word"

text \<open>
  Go's \<open>error\<close> values that the package can see: \<open>io.EOF\<close>, an error of the operating
  system or of a codec (kept by its message), the wrapper built by
  \<open>fmt.Errorf("Could not open %s.  %w", path, err)\<close>, and \<open>errors.New\<close>.
  \<open>error option\<close> is Go's \<open>error\<close> with \<open>None\<close> for \<open>nil\<close>.
\<close>

datatype error =
    io_EOF
  | lib_error string
  | Errorf_Could_not_open string error
  | errors_New string

fun Error :: "error \<Rightarrow> string" where
  "Error io_EOF = ''EOF''"
| "Error (lib_error msg) = msg"
| "Error (Errorf_Could_not_open p err) = ''Could not open '' @ p @ ''.  '' @ Error err"
| "Error (errors_New msg) = msg"

text \<open>
  \<open>make([]byte, n)\<close>: the runtime panics with "makeslice: len out of range" when \<open>n\<close> is
  negative or above its allocation limit \<open>maxAlloc\<close> (a constant of the platform, \<open>2^48\<close> on
  64-bit Linux), and otherwise hands out \<open>n\<close> zero bytes. An allocation within the limit
  is taken to succeed.
\<close>

datatype panic = makeslice_len_out_of_range

definition make_bytes :: "nat \<Rightarrow> int \<Rightarrow> panic + byte list" where
  "make_bytes maxAlloc n =
     (if n < 0 \<or> int maxAlloc < n then Inl makeslice_len_out_of_range
      else Inr (replicate (nat n) 0))"

text \<open>
  An \<open>io.Reader\<close> as this package uses it: every reader is read once. \<open>rd_payload\<close> is the
  byte stream behind the reader, \<open>rd_limit\<close> the most bytes that one call of \<open>Read\<close>
  delivers (a decoder hands out what it has decoded so far), \<open>rd_err\<close> the error value of
  that call. \<open>Read r p\<close> is the buffer \<open>p\<close> after \<open>r.Read(p)\<close>, and the call's error.
\<close>

record reader =
  rd_payload :: "byte list"
  rd_limit :: nat
  rd_err :: "error option"

definition Read :: "reader \<Rightarrow> byte list \<Rightarrow> byte list \<times> error option" where
  "Read r p =
     (let got = take (min (length p) (rd_limit r)) (rd_payload r)
      in (got @ drop (length got) p, rd_err r))"

text \<open>What \<open>archive/zip\<close> and \<open>sevenzip\<close> report for one member of an open container.\<close>

record zip_File =
  zf_Name :: string
  zf_UncompressedSize64 :: "64 word"
  zf_IsDir :: bool
  zf_Mode :: "32 word"
  zf_ModTime :: int
  zf_Open :: "error + reader"

record sevenzip_File =
  sf_Name :: string
  sf_Size :: int
  sf_IsDir :: bool
  sf_Mode :: "32 word"
  sf_Modified :: int
  sf_Open :: "error + reader"

text \<open>
  \<open>archive/tar\<close>: a header, and a reader that walks the stream. \<open>Next\<close> hands out the
  pending headers one by one and then the stream's last error (\<open>io.EOF\<close> at a clean end);
  once it has failed, the error sticks and \<open>Read\<close> delivers nothing.
\<close>

record tar_Header =
  th_Name :: string
  th_Size :: int
  th_Typeflag :: byte
  th_Mode :: "32 word"
  th_ModTime :: int

record tar_Reader =
  tr_pending :: "(tar_Header \<times> reader) list"
  tr_last :: error
  tr_curr :: "reader option"
  tr_err :: "error option"

definition tar_NewReader :: "(tar_Header \<times> reader) list \<times> error \<Rightarrow> tar_Reader" where
  "tar_NewReader s = \<lparr>tr_pending = fst s, tr_last = snd s, tr_curr = None, tr_err = None\<rparr>"

definition tar_Next :: "tar_Reader \<Rightarrow> (tar_Header option \<times> error option) \<times> tar_Reader" where
  "tar_Next tr =
     (case tr_err tr of
        Some e \<Rightarrow> ((None, Some e), tr)
      | None \<Rightarrow>
          (case tr_pending tr of
             [] \<Rightarrow> ((None, Some (tr_last tr)), tr\<lparr>tr_curr := None, tr_err := Some (tr_last tr)\<rparr>)
           | hr # rest \<Rightarrow> ((Some (fst hr), None), tr\<lparr>tr_pending := rest, tr_curr := Some (snd hr)\<rparr>)))"

definition tar_Read :: "tar_Reader \<Rightarrow> byte list \<Rightarrow> byte list \<times> error option" where
  "tar_Read tr p =
     (case tr_err tr of
        Some e \<Rightarrow> (p, Some e)
      | None \<Rightarrow> (case tr_curr tr of None \<Rightarrow> (p, Some io_EOF) | Some r \<Rightarrow> Read r p))"

text \<open>
  Everything outside the package: the runtime's allocation limit, the path functions,
  the file system and the three codecs, each as the answer it gives for a path. \<open>gzip_NewReader\<close> is the gzip reader over
  the file opened at that path, with the tar stream it decodes to: the headers with the
  readers of their payloads, and the error that ends the stream. \<open>os_Stat\<close> answers with
  the file's size. The answers do not change between calls: cataloging and a later
  extraction see the same files.
\<close>

record world =
  runtime_maxAlloc :: nat
  os_PathSeparator :: char
  os_Getwd :: string
  filepath_Dir :: "string \<Rightarrow> string"
  filepath_Base :: "string \<Rightarrow> string"
  filepath_Join :: "string \<Rightarrow> string \<Rightarrow> string"
  os_Stat :: "string \<Rightarrow> error + int"
  os_Open :: "string \<Rightarrow> error + reader"
  zip_OpenReader :: "string \<Rightarrow> error + zip_File list"
  sevenzip_OpenReader :: "string \<Rightarrow> error + sevenzip_File list"
  gzip_NewReader :: "string \<Rightarrow> error + (tar_Header \<times> reader) list \<times> error"

text \<open>The calls a function makes to the outside, in the order it makes them.\<close>

datatype call =
    C_Printf string
  | C_os_Getwd
  | C_os_Stat string
  | C_os_Open string
  | C_file_Read string
  | C_zip_OpenReader string
  | C_sevenzip_OpenReader string
  | C_gzip_NewReader string
  | C_tar_Next
  | C_tar_Read
  | C_member_Open string
  | C_member_Read string

section \<open>The package's data\<close>

type_synonym ArchiveType = int

abbreviation (input) ARCHIVE_UNINIT :: ArchiveType where "ARCHIVE_UNINIT \<equiv> 0"
abbreviation (input) ARCHIVE_NA :: ArchiveType where "ARCHIVE_NA \<equiv> 1"
abbreviation (input) ARCHIVE_ZIP :: ArchiveType where "ARCHIVE_ZIP \<equiv> 2"
abbreviation (input) ARCHIVE_TGZ :: ArchiveType where "ARCHIVE_TGZ \<equiv> 3"
abbreviation (input) ARCHIVE_7Z :: ArchiveType where "ARCHIVE_7Z \<equiv> 4"

record ArchivedFile =
  af_archivefile :: string
  af_archivetype :: ArchiveType
  af_name :: string
  af_size :: int
  af_IsDir :: bool
  af_mode :: "32 word"
  af_modTime :: int

record ArchiveInfo =
  ai_path :: string
  ai_name :: string
  ai_fullname :: string
  ai_size :: int
  ai_ArchiveType :: ArchiveType
  ai_files :: "ArchivedFile list"

text \<open>\<open>var arinstance ArchiveInfo\<close>: the zero value.\<close>

definition arinstance :: ArchiveInfo where
  "arinstance =
     \<lparr>ai_path = [], ai_name = [], ai_fullname = [], ai_size = 0,
      ai_ArchiveType = ARCHIVE_UNINIT, ai_files = []\<rparr>"

section \<open>Lookup by name\<close>

text \<open>\<open>slices.IndexFunc\<close>: the first index whose element satisfies \<open>f\<close>, or \<open>-1\<close>.\<close>

fun IndexFunc_from :: "nat \<Rightarrow> 'a list \<Rightarrow> ('a \<Rightarrow> bool) \<Rightarrow> int" where
  "IndexFunc_from i [] f = -1"
| "IndexFunc_from i (e # s) f = (if f e then int i else IndexFunc_from (Suc i) s f)"

definition IndexFunc :: "'a list \<Rightarrow> ('a \<Rightarrow> bool) \<Rightarrow> int" where
  "IndexFunc s f = IndexFunc_from 0 s f"

definition File :: "ArchiveInfo \<Rightarrow> string \<Rightarrow> ArchivedFile option" where
  "File ai fname =
     (if length (ai_files ai) = 0 then None
      else
        (let idx = IndexFunc (ai_files ai) (\<lambda>e. af_name e = fname)
         in if idx = -1 then None else Some (ai_files ai ! nat idx)))"

section \<open>Detection\<close>

definition getArchiveType :: "world \<Rightarrow> ArchiveInfo \<Rightarrow> (ArchiveInfo \<times> error option) \<times> call list" where
  "getArchiveType w ar =
     (if ai_size ar < 5 then ((ar\<lparr>ai_ArchiveType := ARCHIVE_NA\<rparr>, None), [])
      else
        (case os_Open w (ai_fullname ar) of
           Inl err \<Rightarrow> ((ar, Some err), [C_os_Open (ai_fullname ar)])
         | Inr file \<Rightarrow>
             (let rd = Read file (replicate 5 0);
                  filebytes = fst rd;
                  cs = [C_os_Open (ai_fullname ar), C_file_Read (ai_fullname ar)]
              in case snd rd of
                   Some err \<Rightarrow> ((ar, Some err), cs)
                 | None \<Rightarrow>
                     (if filebytes ! 0 = 0x50 \<and> filebytes ! 1 = 0x4B \<and> filebytes ! 2 = 0x03
                           \<and> filebytes ! 3 = 0x04
                      then ((ar\<lparr>ai_ArchiveType := ARCHIVE_ZIP\<rparr>, None), cs)
                      else if filebytes ! 0 = 0x37 \<and> filebytes ! 1 = 0x7A \<and> filebytes ! 2 = 0xBC
                           \<and> filebytes ! 3 = 0xAF
                      then ((ar\<lparr>ai_ArchiveType := ARCHIVE_7Z\<rparr>, None), cs)
                      else if filebytes ! 0 = 0x1F \<and> filebytes ! 1 = 0x8B
                      then ((ar\<lparr>ai_ArchiveType := ARCHIVE_TGZ\<rparr>, None), cs)
                      else ((ar\<lparr>ai_ArchiveType := ARCHIVE_NA\<rparr>, None), cs)))))"

section \<open>Cataloging\<close>

definition zip_ArchivedFile :: "string \<Rightarrow> zip_File \<Rightarrow> ArchivedFile" where
  "zip_ArchivedFile fullname fileInZip =
     \<lparr>af_archivefile = fullname, af_archivetype = ARCHIVE_ZIP, af_name = zf_Name fileInZip,
      af_size = sint (zf_UncompressedSize64 fileInZip), af_IsDir = zf_IsDir fileInZip,
      af_mode = zf_Mode fileInZip, af_modTime = zf_ModTime fileInZip\<rparr>"

fun zip_load_loop :: "string \<Rightarrow> zip_File list \<Rightarrow> ArchivedFile list \<Rightarrow> ArchivedFile list" where
  "zip_load_loop fullname [] files = files"
| "zip_load_loop fullname (fileInZip # rest) files =
     zip_load_loop fullname rest (files @ [zip_ArchivedFile fullname fileInZip])"

definition loadFilesInZipArchive :: "world \<Rightarrow> ArchiveInfo \<Rightarrow> (ArchiveInfo \<times> error option) \<times> call list" where
  "loadFilesInZipArchive w ar =
     (case zip_OpenReader w (ai_fullname ar) of
        Inl err \<Rightarrow>
          ((ar, Some (Errorf_Could_not_open (ai_fullname ar) err)),
           [C_zip_OpenReader (ai_fullname ar)])
      | Inr zipReader \<Rightarrow>
          ((ar\<lparr>ai_files := zip_load_loop (ai_fullname ar) zipReader (ai_files ar)\<rparr>, None),
           [C_zip_OpenReader (ai_fullname ar)]))"

definition sevenzip_ArchivedFile :: "string \<Rightarrow> sevenzip_File \<Rightarrow> ArchivedFile" where
  "sevenzip_ArchivedFile fullname fileInZip =
     \<lparr>af_archivefile = fullname, af_archivetype = ARCHIVE_7Z, af_name = sf_Name fileInZip,
      af_size = sf_Size fileInZip, af_IsDir = sf_IsDir fileInZip,
      af_mode = sf_Mode fileInZip, af_modTime = sf_Modified fileInZip\<rparr>"

fun sevenzip_load_loop :: "string \<Rightarrow> sevenzip_File list \<Rightarrow> ArchivedFile list \<Rightarrow> ArchivedFile list" where
  "sevenzip_load_loop fullname [] files = files"
| "sevenzip_load_loop fullname (fileInZip # rest) files =
     sevenzip_load_loop fullname rest (files @ [sevenzip_ArchivedFile fullname fileInZip])"

definition loadFilesIn7ZArchive :: "world \<Rightarrow> ArchiveInfo \<Rightarrow> (ArchiveInfo \<times> error option) \<times> call list" where
  "loadFilesIn7ZArchive w ar =
     (case sevenzip_OpenReader w (ai_fullname ar) of
        Inl err \<Rightarrow>
          ((ar, Some (Errorf_Could_not_open (ai_fullname ar) err)),
           [C_sevenzip_OpenReader (ai_fullname ar)])
      | Inr zipReader \<Rightarrow>
          ((ar\<lparr>ai_files := sevenzip_load_loop (ai_fullname ar) zipReader (ai_files ar)\<rparr>, None),
           [C_sevenzip_OpenReader (ai_fullname ar)]))"

definition tgz_ArchivedFile :: "string \<Rightarrow> tar_Header \<Rightarrow> ArchivedFile" where
  "tgz_ArchivedFile fullname head =
     \<lparr>af_archivefile = fullname, af_archivetype = ARCHIVE_TGZ, af_name = th_Name head,
      af_size = th_Size head, af_IsDir = False,
      af_mode = th_Mode head, af_modTime = th_ModTime head\<rparr>"

text \<open>
  \<open>for head != nil && err == nil { append; head, err = tarReader.Next() }\<close>, entered with the
  result of the first \<open>Next\<close>; it returns the files, the last \<open>err\<close> and the calls made.
\<close>

function tgz_load_loop ::
  "string \<Rightarrow> tar_Reader \<Rightarrow> tar_Header option \<Rightarrow> error option \<Rightarrow> ArchivedFile list \<Rightarrow> call list
   \<Rightarrow> ArchivedFile list \<times> error option \<times> call list" where
  "tgz_load_loop fullname tarReader head err files cs =
     (if head \<noteq> None \<and> err = None then
        (let nx = tar_Next tarReader
         in tgz_load_loop fullname (snd nx) (fst (fst nx)) (snd (fst nx))
              (files @ [tgz_ArchivedFile fullname (the head)]) (cs @ [C_tar_Next]))
      else (files, err, cs))"
  by pat_completeness auto
termination
  by (relation "measure (\<lambda>(fullname, tr, head, err, files, cs).
        length (tr_pending tr) + (if head = None then 0 else 1))")
     (auto simp: tar_Next_def split: option.splits list.splits)

declare tgz_load_loop.simps [simp del]

definition loadFilesInTgzArchive :: "world \<Rightarrow> ArchiveInfo \<Rightarrow> (ArchiveInfo \<times> error option) \<times> call list" where
  "loadFilesInTgzArchive w ar =
     (case os_Open w (ai_fullname ar) of
        Inl err \<Rightarrow>
          ((ar, Some (Errorf_Could_not_open (ai_fullname ar) err)), [C_os_Open (ai_fullname ar)])
      | Inr file \<Rightarrow>
          (case gzip_NewReader w (ai_fullname ar) of
             Inl err \<Rightarrow>
               ((ar, Some (Errorf_Could_not_open (ai_fullname ar) err)),
                [C_os_Open (ai_fullname ar), C_gzip_NewReader (ai_fullname ar)])
           | Inr gzReader \<Rightarrow>
               (let nx = tar_Next (tar_NewReader gzReader);
                    res = tgz_load_loop (ai_fullname ar) (snd nx) (fst (fst nx)) (snd (fst nx))
                            (ai_files ar)
                            [C_os_Open (ai_fullname ar), C_gzip_NewReader (ai_fullname ar), C_tar_Next];
                    err = fst (snd res)
                in ((ar\<lparr>ai_files := fst res\<rparr>, if err = Some io_EOF then None else err),
                    snd (snd res)))))"

section \<open>GetArchiveInfo\<close>

text \<open>Lines 92 to 109: stat, detect, catalog; \<open>cs\<close> are the calls made before.\<close>

definition GetArchiveInfo_file :: "world \<Rightarrow> ArchiveInfo \<Rightarrow> call list \<Rightarrow> (ArchiveInfo \<times> error option) \<times> call list" where
  "GetArchiveInfo_file w ar0 cs =
     (let ar = ar0\<lparr>ai_fullname := filepath_Join w (ai_path ar0) (ai_name ar0)\<rparr>;
          cs1 = cs @ [C_os_Stat (ai_fullname ar)]
      in case os_Stat w (ai_fullname ar) of
           Inl err \<Rightarrow> ((ar, Some err), cs1)
         | Inr fsSize \<Rightarrow>
             (let t = getArchiveType w (ar\<lparr>ai_size := fsSize\<rparr>);
                  ar1 = fst (fst t);
                  cs2 = cs1 @ snd t
              in case snd (fst t) of
                   Some err \<Rightarrow> ((ar1, Some err), cs2)
                 | None \<Rightarrow>
                     (let l = (if ai_ArchiveType ar1 = ARCHIVE_7Z then loadFilesIn7ZArchive w ar1
                               else if ai_ArchiveType ar1 = ARCHIVE_TGZ then loadFilesInTgzArchive w ar1
                               else if ai_ArchiveType ar1 = ARCHIVE_ZIP then loadFilesInZipArchive w ar1
                               else ((ar1, None), []))
                      in (fst l, cs2 @ snd l))))"

definition GetArchiveInfo :: "world \<Rightarrow> string \<Rightarrow> (ArchiveInfo \<times> error option) \<times> call list" where
  "GetArchiveInfo w path =
     (if os_PathSeparator w \<in> set path then
        (let pathName = filepath_Dir w path
         in if length pathName = 0
            then ((arinstance, None), [C_Printf (''Error: Invalid input path.'' @ [CHR 0x0A])])
            else GetArchiveInfo_file w
                   (arinstance\<lparr>ai_path := pathName, ai_name := filepath_Base w path\<rparr>) [])
      else GetArchiveInfo_file w (arinstance\<lparr>ai_path := os_Getwd w, ai_name := path\<rparr>) [C_os_Getwd])"

section \<open>Extraction\<close>

text \<open>
  An extractor returns Go's pair \<open>([]byte, error)\<close>, with \<open>None\<close> for a \<open>nil\<close> slice, unless
  \<open>make\<close> panics.
\<close>

type_synonym bytes_result = "panic + (byte list option \<times> error option)"

fun zip_extract_loop :: "ArchivedFile \<Rightarrow> byte list \<Rightarrow> zip_File list \<Rightarrow> (byte list option \<times> error option) \<times> call list" where
  "zip_extract_loop af buffer [] = ((Some buffer, None), [])"
| "zip_extract_loop af buffer (fileInZip # rest) =
     (if zf_Name fileInZip \<noteq> af_name af then zip_extract_loop af buffer rest
      else
        (case zf_Open fileInZip of
           Inl err \<Rightarrow> ((None, Some err), [C_member_Open (zf_Name fileInZip)])
         | Inr readCloser \<Rightarrow>
             ((Some (fst (Read readCloser buffer)), None),
              [C_member_Open (zf_Name fileInZip), C_member_Read (zf_Name fileInZip)])))"

definition extractZipFileBytes :: "world \<Rightarrow> ArchivedFile \<Rightarrow> bytes_result \<times> call list" where
  "extractZipFileBytes w af =
     (case make_bytes (runtime_maxAlloc w) (af_size af) of
        Inl p \<Rightarrow> (Inl p, [])
      | Inr buffer \<Rightarrow>
          (case zip_OpenReader w (af_archivefile af) of
             Inl err \<Rightarrow>
               (Inr (None, Some (Errorf_Could_not_open (af_archivefile af) err)),
                [C_zip_OpenReader (af_archivefile af)])
           | Inr zipReader \<Rightarrow>
               (let r = zip_extract_loop af buffer zipReader
                in (Inr (fst r), C_zip_OpenReader (af_archivefile af) # snd r))))"

fun sevenzip_extract_loop :: "ArchivedFile \<Rightarrow> byte list \<Rightarrow> sevenzip_File list \<Rightarrow> (byte list option \<times> error option) \<times> call list" where
  "sevenzip_extract_loop af buffer [] = ((Some buffer, None), [])"
| "sevenzip_extract_loop af buffer (fileInZip # rest) =
     (if sf_Name fileInZip \<noteq> af_name af then sevenzip_extract_loop af buffer rest
      else
        (case sf_Open fileInZip of
           Inl err \<Rightarrow> ((None, Some err), [C_member_Open (sf_Name fileInZip)])
         | Inr readCloser \<Rightarrow>
             ((Some (fst (Read readCloser buffer)), None),
              [C_member_Open (sf_Name fileInZip), C_member_Read (sf_Name fileInZip)])))"

definition extract7ZFileBytes :: "world \<Rightarrow> ArchivedFile \<Rightarrow> bytes_result \<times> call list" where
  "extract7ZFileBytes w af =
     (case sevenzip_OpenReader w (af_archivefile af) of
        Inl err \<Rightarrow>
          (Inr (None, Some (Errorf_Could_not_open (af_archivefile af) err)),
           [C_sevenzip_OpenReader (af_archivefile af)])
      | Inr zipReader \<Rightarrow>
          (case make_bytes (runtime_maxAlloc w) (af_size af) of
             Inl p \<Rightarrow> (Inl p, [C_sevenzip_OpenReader (af_archivefile af)])
           | Inr buffer \<Rightarrow>
               (let r = sevenzip_extract_loop af buffer zipReader
                in (Inr (fst r), C_sevenzip_OpenReader (af_archivefile af) # snd r))))"

text \<open>
  \<open>for head != nil && err == nil { if head.Name != af.name { head, err = tarReader.Next();
  continue }; break }\<close>; it returns the reader where the loop left it, the last \<open>err\<close> and
  the calls made.
\<close>

function tgz_locate_loop ::
  "ArchivedFile \<Rightarrow> tar_Reader \<Rightarrow> tar_Header option \<Rightarrow> error option \<Rightarrow> call list
   \<Rightarrow> tar_Reader \<times> error option \<times> call list" where
  "tgz_locate_loop af tarReader head err cs =
     (if head \<noteq> None \<and> err = None then
        (if th_Name (the head) \<noteq> af_name af then
           (let nx = tar_Next tarReader
            in tgz_locate_loop af (snd nx) (fst (fst nx)) (snd (fst nx)) (cs @ [C_tar_Next]))
         else (tarReader, err, cs))
      else (tarReader, err, cs))"
  by pat_completeness auto
termination
  by (relation "measure (\<lambda>(af, tr, head, err, cs).
        length (tr_pending tr) + (if head = None then 0 else 1))")
     (auto simp: tar_Next_def split: option.splits list.splits)

declare tgz_locate_loop.simps [simp del]

definition extractTgzFileBytes :: "world \<Rightarrow> ArchivedFile \<Rightarrow> bytes_result \<times> call list" where
  "extractTgzFileBytes w af =
     (case make_bytes (runtime_maxAlloc w) (af_size af) of
        Inl p \<Rightarrow> (Inl p, [])
      | Inr buffer \<Rightarrow>
          (case os_Open w (af_archivefile af) of
             Inl err \<Rightarrow>
               (Inr (None, Some (Errorf_Could_not_open (af_archivefile af) err)),
                [C_os_Open (af_archivefile af)])
           | Inr file \<Rightarrow>
               (case gzip_NewReader w (af_archivefile af) of
                  Inl err \<Rightarrow>
                    (Inr (None, Some (Errorf_Could_not_open (af_archivefile af) err)),
                     [C_os_Open (af_archivefile af), C_gzip_NewReader (af_archivefile af)])
                | Inr gzReader \<Rightarrow>
                    (let nx = tar_Next (tar_NewReader gzReader);
                         res = tgz_locate_loop af (snd nx) (fst (fst nx)) (snd (fst nx))
                                 [C_os_Open (af_archivefile af), C_gzip_NewReader (af_archivefile af),
                                  C_tar_Next];
                         rd = tar_Read (fst res) buffer
                     in (Inr (Some (fst rd), fst (snd res)), snd (snd res) @ [C_tar_Read])))))"

definition GetBytes :: "world \<Rightarrow> ArchivedFile \<Rightarrow> bytes_result \<times> call list" where
  "GetBytes w af =
     (if af_archivetype af = ARCHIVE_7Z then extract7ZFileBytes w af
      else if af_archivetype af = ARCHIVE_TGZ then extractTgzFileBytes w af
      else if af_archivetype af = ARCHIVE_ZIP then extractZipFileBytes w af
      else (Inr (None, Some (errors_New ''unsupported archive type'')), []))"

section \<open>Notions of the specification\<close>

text \<open>
  Following the spec's words (4.1): the type named by the leading bytes, the signatures
  tried in the order ZIP, 7z, gzip.
\<close>

definition detect_by_signature :: "byte list \<Rightarrow> ArchiveType" where
  "detect_by_signature bs =
     (if take 4 bs = [0x50, 0x4B, 0x03, 0x04] then ARCHIVE_ZIP
      else if take 4 bs = [0x37, 0x7A, 0xBC, 0xAF] then ARCHIVE_7Z
      else if take 2 bs = [0x1F, 0x8B] then ARCHIVE_TGZ
      else ARCHIVE_NA)"

text \<open>
  Following the spec's words (4.3, 8): what the codec of the entry's container reports
  for the entry's name, as the result of opening the first member of that name;
  \<open>None\<close> when the container does not open or has no member of that name.
\<close>

definition codec_member :: "world \<Rightarrow> ArchivedFile \<Rightarrow> (error + reader) option" where
  "codec_member w e =
     (if af_archivetype e = ARCHIVE_ZIP then
        (case zip_OpenReader w (af_archivefile e) of
           Inl err \<Rightarrow> None
         | Inr zs \<Rightarrow> map_option zf_Open (find (\<lambda>z. zf_Name z = af_name e) zs))
      else if af_archivetype e = ARCHIVE_7Z then
        (case sevenzip_OpenReader w (af_archivefile e) of
           Inl err \<Rightarrow> None
         | Inr zs \<Rightarrow> map_option sf_Open (find (\<lambda>z. sf_Name z = af_name e) zs))
      else if af_archivetype e = ARCHIVE_TGZ then
        (case gzip_NewReader w (af_archivefile e) of
           Inl err \<Rightarrow> None
         | Inr s \<Rightarrow>
             map_option (\<lambda>hr. Inr (snd hr)) (find (\<lambda>hr. th_Name (fst hr) = af_name e) (fst s)))
      else None)"

text \<open>The calls that only a cataloger or an extractor makes.\<close>

fun codec_call :: "call \<Rightarrow> bool" where
  "codec_call (C_zip_OpenReader p) = True"
| "codec_call (C_sevenzip_OpenReader p) = True"
| "codec_call (C_gzip_NewReader p) = True"
| "codec_call C_tar_Next = True"
| "codec_call C_tar_Read = True"
| "codec_call (C_member_Open n) = True"
| "codec_call (C_member_Read n) = True"
| "codec_call c = False"

section \<open>A small file system for the examples\<close>

definition example_Dir :: "string \<Rightarrow> string" where
  "example_Dir p =
     (let r = dropWhile (\<lambda>c. c \<noteq> CHR ''/'') (rev p)
      in if r = [] then ''.'' else if tl r = [] then ''/'' else rev (tl r))"

definition example_Base :: "string \<Rightarrow> string" where
  "example_Base p = rev (takeWhile (\<lambda>c. c \<noteq> CHR ''/'') (rev p))"

definition at_path :: "(string \<times> (error + 'a)) list \<Rightarrow> string \<Rightarrow> error + 'a" where
  "at_path table p =
     (case map_of table p of
        None \<Rightarrow> Inl (lib_error ''no such file or directory'')
      | Some x \<Rightarrow> x)"

definition bytes_reader :: "nat \<Rightarrow> byte list \<Rightarrow> reader" where
  "bytes_reader k bs = \<lparr>rd_payload = bs, rd_limit = k, rd_err = None\<rparr>"

text \<open>
  \<open>example_world k\<close>: three good archives, three broken ones, two plain files and an odd
  ZIP under \<open>/data\<close>; \<open>k\<close> is the most bytes a member's decoder delivers in one \<open>Read\<close>.
  The odd ZIP holds a member whose 64-bit size has its top bit set, a member larger than
  the allocation limit, and a member that the codec lists but does not open.
\<close>

definition example_odd_zip :: "zip_File list" where
  "example_odd_zip =
     [\<lparr>zf_Name = ''huge.bin'', zf_UncompressedSize64 = 0x8000000000000005, zf_IsDir = False,
       zf_Mode = 0x1A4, zf_ModTime = 1700000005, zf_Open = Inr (bytes_reader 4096 [])\<rparr>,
      \<lparr>zf_Name = ''big.bin'', zf_UncompressedSize64 = 0x4000000000000000, zf_IsDir = False,
       zf_Mode = 0x1A4, zf_ModTime = 1700000006, zf_Open = Inr (bytes_reader 4096 [])\<rparr>,
      \<lparr>zf_Name = ''locked.txt'', zf_UncompressedSize64 = 4, zf_IsDir = False,
       zf_Mode = 0x1A4, zf_ModTime = 1700000007,
       zf_Open = Inl (lib_error ''zip: unsupported compression algorithm'')\<rparr>]"

definition example_zip :: "nat \<Rightarrow> zip_File list" where
  "example_zip k =
     [\<lparr>zf_Name = ''a.txt'', zf_UncompressedSize64 = 4, zf_IsDir = False, zf_Mode = 0x1A4,
       zf_ModTime = 1700000000, zf_Open = Inr (bytes_reader k [1, 2, 3, 4])\<rparr>,
      \<lparr>zf_Name = ''dir/A.txt'', zf_UncompressedSize64 = 2, zf_IsDir = False, zf_Mode = 0x1A4,
       zf_ModTime = 1700000001, zf_Open = Inr (bytes_reader k [9, 8])\<rparr>]"

definition example_7z :: "nat \<Rightarrow> sevenzip_File list" where
  "example_7z k =
     [\<lparr>sf_Name = ''b.txt'', sf_Size = 3, sf_IsDir = False, sf_Mode = 0x1A4,
       sf_Modified = 1700000002, sf_Open = Inr (bytes_reader k [5, 6, 7])\<rparr>]"

definition example_tar :: "nat \<Rightarrow> (tar_Header \<times> reader) list" where
  "example_tar k =
     [(\<lparr>th_Name = ''d/'', th_Size = 0, th_Typeflag = 0x35, th_Mode = 0x800001ED,
        th_ModTime = 1700000003\<rparr>, bytes_reader k []),
      (\<lparr>th_Name = ''d/c.txt'', th_Size = 3, th_Typeflag = 0x30, th_Mode = 0x1A4,
        th_ModTime = 1700000004\<rparr>, bytes_reader k [10, 11, 12])]"

definition example_world :: "nat \<Rightarrow> world" where
  "example_world k =
     \<lparr>runtime_maxAlloc = 281474976710656,
      os_PathSeparator = CHR ''/'', os_Getwd = ''/home'',
      filepath_Dir = example_Dir, filepath_Base = example_Base,
      filepath_Join = (\<lambda>d n. d @ ''/'' @ n),
      os_Stat = at_path
        [(''/data/a.zip'', Inr 200), (''/data/b.7z'', Inr 300), (''/data/c.tgz'', Inr 150),
         (''/data/bad.zip'', Inr 64), (''/data/bad.7z'', Inr 64), (''/data/bad.tgz'', Inr 90),
         (''/data/notes.txt'', Inr 12), (''/data/tiny'', Inr 3), (''/data/odd.zip'', Inr 400)],
      os_Open = at_path
        [(''/data/a.zip'', Inr (bytes_reader 4096 [0x50, 0x4B, 0x03, 0x04, 0x14, 0x00])),
         (''/data/b.7z'', Inr (bytes_reader 4096 [0x37, 0x7A, 0xBC, 0xAF, 0x27, 0x1C])),
         (''/data/c.tgz'', Inr (bytes_reader 4096 [0x1F, 0x8B, 0x08, 0x00, 0x00, 0x00])),
         (''/data/bad.zip'', Inr (bytes_reader 4096 [0x50, 0x4B, 0x03, 0x04, 0xFF, 0xFF])),
         (''/data/bad.7z'', Inr (bytes_reader 4096 [0x37, 0x7A, 0xBC, 0xAF, 0xFF, 0xFF])),
         (''/data/bad.tgz'', Inr (bytes_reader 4096 [0x1F, 0x8B, 0x08, 0x00, 0xFF, 0xFF])),
         (''/data/notes.txt'', Inr (bytes_reader 4096 [0x68, 0x65, 0x6C, 0x6C, 0x6F, 0x2C])),
         (''/data/tiny'', Inr (bytes_reader 4096 [0x50, 0x4B, 0x03])),
         (''/data/odd.zip'', Inr (bytes_reader 4096 [0x50, 0x4B, 0x03, 0x04, 0x2D, 0x00]))],
      zip_OpenReader = at_path
        [(''/data/a.zip'', Inr (example_zip k)),
         (''/data/bad.zip'', Inl (lib_error ''zip: not a valid zip file'')),
         (''/data/odd.zip'', Inr example_odd_zip)],
      sevenzip_OpenReader = at_path
        [(''/data/b.7z'', Inr (example_7z k)),
         (''/data/bad.7z'', Inl (lib_error ''sevenzip: not a valid 7-zip file''))],
      gzip_NewReader = at_path
        [(''/data/c.tgz'', Inr (example_tar k, io_EOF)),
         (''/data/bad.tgz'', Inr (take 1 (example_tar k), lib_error ''unexpected EOF''))]\<rparr>"

text \<open>A catalog for the lookup examples.\<close>

definition example_catalog :: ArchiveInfo where
  "example_catalog =
     arinstance
       \<lparr>ai_ArchiveType := ARCHIVE_ZIP,
        ai_files := map (zip_ArchivedFile ''/data/a.zip'') (example_zip 4096)\<rparr>"

text \<open>An entry of size 3 whose name is in none of the example containers.\<close>

definition absent_entry :: "string \<Rightarrow> ArchiveType \<Rightarrow> ArchivedFile" where
  "absent_entry container t =
     \<lparr>af_archivefile = container, af_archivetype = t, af_name = ''missing.txt'', af_size = 3,
      af_IsDir = False, af_mode = 0x1A4, af_modTime = 1700000000\<rparr>"

section \<open>Facts about the readers and the iterations\<close>

lemma length_Read: "length (fst (Read r p)) = length p"
  by (simp add: Read_def Let_def)

lemma Read_whole:
  "length p = length (rd_payload r) \<Longrightarrow> length (rd_payload r) \<le> rd_limit r \<Longrightarrow>
   fst (Read r p) = rd_payload r"
  by (simp add: Read_def Let_def)

lemma make_bytes_Inr:
  "make_bytes m n = Inr b \<Longrightarrow> 0 \<le> n \<and> n \<le> int m \<and> b = replicate (nat n) 0"
  by (auto simp: make_bytes_def split: if_splits)

lemma make_bytes_in_range:
  "0 \<le> n \<and> n \<le> int m \<Longrightarrow> make_bytes m n = Inr (replicate (nat n) 0)"
  by (simp add: make_bytes_def)

lemma make_bytes_out_of_range:
  "n < 0 \<or> int m < n \<Longrightarrow> make_bytes m n = Inl makeslice_len_out_of_range"
  by (auto simp: make_bytes_def)

lemma zip_load_loop_eq:
  "zip_load_loop fullname zs files = files @ map (zip_ArchivedFile fullname) zs"
  by (induction zs arbitrary: files) simp_all

lemma sevenzip_load_loop_eq:
  "sevenzip_load_loop fullname zs files = files @ map (sevenzip_ArchivedFile fullname) zs"
  by (induction zs arbitrary: files) simp_all

lemma tgz_load_loop_stop:
  "tgz_load_loop fullname tr None err files cs = (files, err, cs)"
  by (simp add: tgz_load_loop.simps)

text \<open>
  Entered with a header in hand and a reader that has not failed, the cataloging loop
  appends that header and every pending one, and ends with the stream's last error.
\<close>

lemma tgz_load_loop_run:
  "tr_err tr = None \<Longrightarrow>
   tgz_load_loop fullname tr (Some h) None files cs =
     (files @ tgz_ArchivedFile fullname h # map (tgz_ArchivedFile fullname \<circ> fst) (tr_pending tr),
      Some (tr_last tr),
      cs @ replicate (Suc (length (tr_pending tr))) C_tar_Next)"
proof (induction "tr_pending tr" arbitrary: tr h files cs)
  case Nil
  then show ?case
    by (subst tgz_load_loop.simps) (simp add: tar_Next_def tgz_load_loop_stop)
next
  case (Cons hr rest)
  from Cons.hyps(2) have p: "tr_pending tr = hr # rest" by simp
  let ?tr' = "tr\<lparr>tr_pending := rest, tr_curr := Some (snd hr)\<rparr>"
  have nx: "tar_Next tr = ((Some (fst hr), None), ?tr')"
    using Cons.prems p by (simp add: tar_Next_def)
  have ih: "tgz_load_loop fullname ?tr' (Some (fst hr)) None
              (files @ [tgz_ArchivedFile fullname h]) (cs @ [C_tar_Next]) =
     ((files @ [tgz_ArchivedFile fullname h])
        @ tgz_ArchivedFile fullname (fst hr)
        # map (tgz_ArchivedFile fullname \<circ> fst) (tr_pending ?tr'),
      Some (tr_last ?tr'),
      (cs @ [C_tar_Next]) @ replicate (Suc (length (tr_pending ?tr'))) C_tar_Next)"
    by (rule Cons.hyps(1)) (simp_all add: Cons.prems)
  show ?case
    by (subst tgz_load_loop.simps) (simp add: nx ih p replicate_append_same)
qed

lemma loadFilesInTgzArchive_opened:
  assumes "os_Open w (ai_fullname ar) = Inr file"
      and "gzip_NewReader w (ai_fullname ar) = Inr s"
  shows "loadFilesInTgzArchive w ar =
     ((ar\<lparr>ai_files := ai_files ar @ map (tgz_ArchivedFile (ai_fullname ar) \<circ> fst) (fst s)\<rparr>,
       if snd s = io_EOF then None else Some (snd s)),
      [C_os_Open (ai_fullname ar), C_gzip_NewReader (ai_fullname ar)]
        @ replicate (Suc (length (fst s))) C_tar_Next)"
proof (cases "fst s")
  case Nil
  then show ?thesis
    using assms
    by (simp add: loadFilesInTgzArchive_def tar_Next_def tar_NewReader_def tgz_load_loop_stop)
next
  case (Cons hr rest)
  then show ?thesis
    using assms
    by (simp add: loadFilesInTgzArchive_def tar_Next_def tar_NewReader_def tgz_load_loop_run
        replicate_append_same)
qed

lemma zip_extract_loop_find:
  "fst (zip_extract_loop af buffer zs) =
     (case find (\<lambda>z. zf_Name z = af_name af) zs of
        None \<Rightarrow> (Some buffer, None)
      | Some z \<Rightarrow>
          (case zf_Open z of
             Inl err \<Rightarrow> (None, Some err)
           | Inr r \<Rightarrow> (Some (fst (Read r buffer)), None)))"
  by (induction zs) (auto split: sum.splits)

lemma zip_extract_loop_absent:
  "\<forall>z\<in>set zs. zf_Name z \<noteq> af_name af \<Longrightarrow>
   zip_extract_loop af buffer zs = ((Some buffer, None), [])"
  by (induction zs) auto

lemma sevenzip_extract_loop_find:
  "fst (sevenzip_extract_loop af buffer zs) =
     (case find (\<lambda>z. sf_Name z = af_name af) zs of
        None \<Rightarrow> (Some buffer, None)
      | Some z \<Rightarrow>
          (case sf_Open z of
             Inl err \<Rightarrow> (None, Some err)
           | Inr r \<Rightarrow> (Some (fst (Read r buffer)), None)))"
  by (induction zs) (auto split: sum.splits)

lemma sevenzip_extract_loop_absent:
  "\<forall>z\<in>set zs. sf_Name z \<noteq> af_name af \<Longrightarrow>
   sevenzip_extract_loop af buffer zs = ((Some buffer, None), [])"
  by (induction zs) auto

lemma tgz_locate_loop_stop:
  "tgz_locate_loop af tr None err cs = (tr, err, cs)"
  by (simp add: tgz_locate_loop.simps)

text \<open>
  Entered with a header in hand, the locating loop stops at the first header of the
  wanted name, where \<open>Read\<close> reads that member; with no such header it runs \<open>Next\<close> to the
  end of the stream, and \<open>Read\<close> then delivers nothing.
\<close>

lemma tgz_locate_loop_find:
  "tr_err tr = None \<Longrightarrow> tr_curr tr = Some r \<Longrightarrow>
   (case find (\<lambda>hr. th_Name (fst hr) = af_name af) ((h, r) # tr_pending tr) of
      Some hr \<Rightarrow>
        tar_Read (fst (tgz_locate_loop af tr (Some h) None cs)) buf = Read (snd hr) buf
        \<and> fst (snd (tgz_locate_loop af tr (Some h) None cs)) = None
    | None \<Rightarrow>
        tar_Read (fst (tgz_locate_loop af tr (Some h) None cs)) buf = (buf, Some (tr_last tr))
        \<and> snd (tgz_locate_loop af tr (Some h) None cs)
            = (Some (tr_last tr), cs @ replicate (Suc (length (tr_pending tr))) C_tar_Next))"
proof (induction "tr_pending tr" arbitrary: tr h r cs)
  case Nil
  then show ?case
    by (subst (1 2 3 4) tgz_locate_loop.simps)
       (simp add: tar_Next_def tar_Read_def tgz_locate_loop_stop)
next
  case (Cons hr rest)
  from Cons.hyps(2) have p: "tr_pending tr = hr # rest" by simp
  let ?tr' = "tr\<lparr>tr_pending := rest, tr_curr := Some (snd hr)\<rparr>"
  have nx: "tar_Next tr = ((Some (fst hr), None), ?tr')"
    using Cons.prems p by (simp add: tar_Next_def)
  show ?case
  proof (cases "th_Name h = af_name af")
    case True
    then show ?thesis
      using Cons.prems
      by (subst (1 2) tgz_locate_loop.simps) (simp add: tar_Read_def)
  next
    case False
    have step: "tgz_locate_loop af tr (Some h) None cs =
                tgz_locate_loop af ?tr' (Some (fst hr)) None (cs @ [C_tar_Next])"
      using False by (subst tgz_locate_loop.simps) (simp add: nx)
    have ih: "case find (\<lambda>hr. th_Name (fst hr) = af_name af) ((fst hr, snd hr) # tr_pending ?tr') of
      Some hr' \<Rightarrow>
        tar_Read (fst (tgz_locate_loop af ?tr' (Some (fst hr)) None (cs @ [C_tar_Next]))) buf
          = Read (snd hr') buf
        \<and> fst (snd (tgz_locate_loop af ?tr' (Some (fst hr)) None (cs @ [C_tar_Next]))) = None
    | None \<Rightarrow>
        tar_Read (fst (tgz_locate_loop af ?tr' (Some (fst hr)) None (cs @ [C_tar_Next]))) buf
          = (buf, Some (tr_last ?tr'))
        \<and> snd (tgz_locate_loop af ?tr' (Some (fst hr)) None (cs @ [C_tar_Next]))
            = (Some (tr_last ?tr'),
               (cs @ [C_tar_Next]) @ replicate (Suc (length (tr_pending ?tr'))) C_tar_Next)"
      by (rule Cons.hyps(1)) (simp_all add: Cons.prems)
    have eq: "find (\<lambda>hr. th_Name (fst hr) = af_name af) ((h, r) # tr_pending tr) =
              find (\<lambda>hr. th_Name (fst hr) = af_name af) ((fst hr, snd hr) # tr_pending ?tr')"
      using False by (simp add: p)
    have a: "tr_last ?tr' = tr_last tr"
      by simp
    have b: "(cs @ [C_tar_Next]) @ replicate (Suc (length (tr_pending ?tr'))) C_tar_Next =
             cs @ replicate (Suc (length (tr_pending tr))) C_tar_Next"
      by (simp add: p replicate_append_same)
    show ?thesis
      unfolding step eq by (rule ih [unfolded a b])
  qed
qed

text \<open>The extractors on a container that opens, in closed form.\<close>

lemma extractZipFileBytes_opened:
  assumes "zip_OpenReader w (af_archivefile af) = Inr zs"
      and "0 \<le> af_size af \<and> af_size af \<le> int (runtime_maxAlloc w)"
  shows "fst (extractZipFileBytes w af) =
     Inr (case find (\<lambda>z. zf_Name z = af_name af) zs of
            None \<Rightarrow> (Some (replicate (nat (af_size af)) 0), None)
          | Some z \<Rightarrow>
              (case zf_Open z of
                 Inl err \<Rightarrow> (None, Some err)
               | Inr r \<Rightarrow> (Some (fst (Read r (replicate (nat (af_size af)) 0))), None)))"
  using assms by (simp add: extractZipFileBytes_def make_bytes_in_range zip_extract_loop_find)

lemma extract7ZFileBytes_opened:
  assumes "sevenzip_OpenReader w (af_archivefile af) = Inr zs"
      and "0 \<le> af_size af \<and> af_size af \<le> int (runtime_maxAlloc w)"
  shows "fst (extract7ZFileBytes w af) =
     Inr (case find (\<lambda>z. sf_Name z = af_name af) zs of
            None \<Rightarrow> (Some (replicate (nat (af_size af)) 0), None)
          | Some z \<Rightarrow>
              (case sf_Open z of
                 Inl err \<Rightarrow> (None, Some err)
               | Inr r \<Rightarrow> (Some (fst (Read r (replicate (nat (af_size af)) 0))), None)))"
  using assms by (simp add: extract7ZFileBytes_def make_bytes_in_range sevenzip_extract_loop_find)

lemma extractTgzFileBytes_opened:
  assumes o: "os_Open w (af_archivefile af) = Inr file"
      and g: "gzip_NewReader w (af_archivefile af) = Inr s"
      and n: "0 \<le> af_size af \<and> af_size af \<le> int (runtime_maxAlloc w)"
  shows "fst (extractTgzFileBytes w af) =
     Inr (case find (\<lambda>hr. th_Name (fst hr) = af_name af) (fst s) of
            None \<Rightarrow> (Some (replicate (nat (af_size af)) 0), Some (snd s))
          | Some hr \<Rightarrow> (Some (fst (Read (snd hr) (replicate (nat (af_size af)) 0))), None))"
proof (cases "fst s")
  case Nil
  then show ?thesis
    using o g n
    by (simp add: extractTgzFileBytes_def make_bytes_in_range tar_Next_def tar_NewReader_def
        tgz_locate_loop_stop tar_Read_def)
next
  case (Cons hr rest)
  let ?tr = "\<lparr>tr_pending = rest, tr_last = snd s, tr_curr = Some (snd hr), tr_err = None\<rparr>"
  let ?cs = "[C_os_Open (af_archivefile af), C_gzip_NewReader (af_archivefile af), C_tar_Next]"
  let ?buf = "replicate (nat (af_size af)) (0::byte)"
  have nx: "tar_Next (tar_NewReader s) = ((Some (fst hr), None), ?tr)"
    using Cons by (simp add: tar_Next_def tar_NewReader_def)
  have f: "case find (\<lambda>hr. th_Name (fst hr) = af_name af) ((fst hr, snd hr) # tr_pending ?tr) of
      Some hr' \<Rightarrow>
        tar_Read (fst (tgz_locate_loop af ?tr (Some (fst hr)) None ?cs)) ?buf = Read (snd hr') ?buf
        \<and> fst (snd (tgz_locate_loop af ?tr (Some (fst hr)) None ?cs)) = None
    | None \<Rightarrow>
        tar_Read (fst (tgz_locate_loop af ?tr (Some (fst hr)) None ?cs)) ?buf = (?buf, Some (tr_last ?tr))
        \<and> snd (tgz_locate_loop af ?tr (Some (fst hr)) None ?cs)
            = (Some (tr_last ?tr), ?cs @ replicate (Suc (length (tr_pending ?tr))) C_tar_Next)"
    by (rule tgz_locate_loop_find) simp_all
  have e: "fst (extractTgzFileBytes w af) =
      Inr (Some (fst (tar_Read (fst (tgz_locate_loop af ?tr (Some (fst hr)) None ?cs)) ?buf)),
           fst (snd (tgz_locate_loop af ?tr (Some (fst hr)) None ?cs)))"
    using o g n by (simp add: extractTgzFileBytes_def make_bytes_in_range nx Let_def)
  have l: "fst s = (fst hr, snd hr) # tr_pending ?tr"
    using Cons by simp
  define found where "found = find (\<lambda>hr. th_Name (fst hr) = af_name af) ((fst hr, snd hr) # tr_pending ?tr)"
  show ?thesis
    unfolding e l using f unfolding found_def [symmetric]
    by (cases found) simp_all
qed

section \<open>Facts about detection and GetArchiveInfo\<close>

text \<open>The four ways detection ends.\<close>

lemma getArchiveType_cases:
  obtains
    (small) "ai_size ar < 5"
      "getArchiveType w ar = ((ar\<lparr>ai_ArchiveType := ARCHIVE_NA\<rparr>, None), [])"
  | (open_failed) e where "os_Open w (ai_fullname ar) = Inl e"
      "getArchiveType w ar = ((ar, Some e), [C_os_Open (ai_fullname ar)])"
  | (read_failed) fl e where "os_Open w (ai_fullname ar) = Inr fl"
      "getArchiveType w ar =
         ((ar, Some e), [C_os_Open (ai_fullname ar), C_file_Read (ai_fullname ar)])"
  | (sniffed) fl t where "os_Open w (ai_fullname ar) = Inr fl"
      "t = ARCHIVE_NA \<or> t = ARCHIVE_ZIP \<or> t = ARCHIVE_7Z \<or> t = ARCHIVE_TGZ"
      "getArchiveType w ar =
         ((ar\<lparr>ai_ArchiveType := t\<rparr>, None),
          [C_os_Open (ai_fullname ar), C_file_Read (ai_fullname ar)])"
proof (cases "ai_size ar < 5")
  case True
  then show ?thesis
    by (intro small) (simp_all add: getArchiveType_def)
next
  case big: False
  show ?thesis
  proof (cases "os_Open w (ai_fullname ar)")
    case (Inl e)
    with big show ?thesis
      by (intro open_failed [of e]) (simp_all add: getArchiveType_def)
  next
    case (Inr fl)
    show ?thesis
    proof (cases "snd (Read fl (replicate 5 0))")
      case (Some e)
      with big Inr show ?thesis
        by (intro read_failed [of fl e]) (simp_all add: getArchiveType_def Let_def)
    next
      case None
      with big Inr have
        "\<exists>t. (t = ARCHIVE_NA \<or> t = ARCHIVE_ZIP \<or> t = ARCHIVE_7Z \<or> t = ARCHIVE_TGZ) \<and>
             getArchiveType w ar =
               ((ar\<lparr>ai_ArchiveType := t\<rparr>, None),
                [C_os_Open (ai_fullname ar), C_file_Read (ai_fullname ar)])"
        by (auto simp: getArchiveType_def Let_def)
      with Inr show ?thesis
        using sniffed by blast
    qed
  qed
qed

text \<open>
  After the path is settled, \<open>GetArchiveInfo\<close> either stops without a cataloger (the stat
  or the detection failed, or the file is not an archive), or hands the handle, with its
  type set and no file yet, to the cataloger of that type.
\<close>

lemma GetArchiveInfo_file_cases:
  obtains
    (not_cataloged) ar err cs' where
      "GetArchiveInfo_file w ar0 cs = ((ar, err), cs @ cs')"
      "ai_files ar = ai_files ar0"
      "ai_ArchiveType ar = ARCHIVE_NA \<or> ai_ArchiveType ar = ai_ArchiveType ar0"
      "\<forall>c\<in>set cs'. \<not> codec_call c"
      "count_list cs' (C_os_Open (ai_fullname ar)) \<le> 1"
  | (zip) ar1 fl cs' where
      "ai_files ar1 = ai_files ar0" "ai_ArchiveType ar1 = ARCHIVE_ZIP"
      "os_Open w (ai_fullname ar1) = Inr fl"
      "GetArchiveInfo_file w ar0 cs =
         (fst (loadFilesInZipArchive w ar1), cs @ cs' @ snd (loadFilesInZipArchive w ar1))"
  | (sevenzip) ar1 fl cs' where
      "ai_files ar1 = ai_files ar0" "ai_ArchiveType ar1 = ARCHIVE_7Z"
      "os_Open w (ai_fullname ar1) = Inr fl"
      "GetArchiveInfo_file w ar0 cs =
         (fst (loadFilesIn7ZArchive w ar1), cs @ cs' @ snd (loadFilesIn7ZArchive w ar1))"
  | (tgz) ar1 fl cs' where
      "ai_files ar1 = ai_files ar0" "ai_ArchiveType ar1 = ARCHIVE_TGZ"
      "os_Open w (ai_fullname ar1) = Inr fl"
      "GetArchiveInfo_file w ar0 cs =
         (fst (loadFilesInTgzArchive w ar1), cs @ cs' @ snd (loadFilesInTgzArchive w ar1))"
proof -
  let ?ar = "ar0\<lparr>ai_fullname := filepath_Join w (ai_path ar0) (ai_name ar0)\<rparr>"
  show ?thesis
  proof (cases "os_Stat w (ai_fullname ?ar)")
    case (Inl e)
    then show ?thesis
      by (intro not_cataloged [of ?ar "Some e" "[C_os_Stat (ai_fullname ?ar)]"])
         (simp_all add: GetArchiveInfo_file_def Let_def)
  next
    case (Inr fsSize)
    let ?ar2 = "?ar\<lparr>ai_size := fsSize\<rparr>"
    have full: "ai_fullname ?ar2 = ai_fullname ?ar"
      by simp
    show ?thesis
    proof (cases rule: getArchiveType_cases [where ar = ?ar2 and w = w])
      case small
      with Inr show ?thesis
        by (intro not_cataloged [of "?ar2\<lparr>ai_ArchiveType := ARCHIVE_NA\<rparr>" None
              "[C_os_Stat (ai_fullname ?ar)]"])
           (simp_all add: GetArchiveInfo_file_def Let_def)
    next
      case (open_failed e)
      with Inr show ?thesis
        by (intro not_cataloged [of ?ar2 "Some e"
              "[C_os_Stat (ai_fullname ?ar), C_os_Open (ai_fullname ?ar)]"])
           (simp_all add: GetArchiveInfo_file_def Let_def)
    next
      case (read_failed fl e)
      with Inr show ?thesis
        by (intro not_cataloged [of ?ar2 "Some e"
              "[C_os_Stat (ai_fullname ?ar), C_os_Open (ai_fullname ?ar),
                C_file_Read (ai_fullname ?ar)]"])
           (simp_all add: GetArchiveInfo_file_def Let_def)
    next
      case (sniffed fl t)
      let ?ar3 = "?ar2\<lparr>ai_ArchiveType := t\<rparr>"
      let ?cs' = "[C_os_Stat (ai_fullname ?ar), C_os_Open (ai_fullname ?ar),
                   C_file_Read (ai_fullname ?ar)]"
      from sniffed(2) consider "t = ARCHIVE_NA" | "t = ARCHIVE_ZIP" | "t = ARCHIVE_7Z"
        | "t = ARCHIVE_TGZ"
        by blast
      then show ?thesis
      proof cases
        case 1
        with Inr sniffed(3) show ?thesis
          by (intro not_cataloged [of ?ar3 None ?cs'])
             (simp_all add: GetArchiveInfo_file_def Let_def)
      next
        case 2
        with Inr sniffed(1,3) show ?thesis
          by (intro zip [of ?ar3 fl ?cs'])
             (simp_all add: GetArchiveInfo_file_def Let_def)
      next
        case 3
        with Inr sniffed(1,3) show ?thesis
          by (intro sevenzip [of ?ar3 fl ?cs'])
             (simp_all add: GetArchiveInfo_file_def Let_def)
      next
        case 4
        with Inr sniffed(1,3) show ?thesis
          by (intro tgz [of ?ar3 fl ?cs'])
             (simp_all add: GetArchiveInfo_file_def Let_def)
      qed
    qed
  qed
qed

lemma GetArchiveInfo_cases:
  obtains
    (not_cataloged) ar err cs where
      "GetArchiveInfo w path = ((ar, err), cs)"
      "ai_files ar = []"
      "ai_ArchiveType ar = ARCHIVE_NA \<or> ai_ArchiveType ar = ARCHIVE_UNINIT"
      "\<forall>c\<in>set cs. \<not> codec_call c"
      "count_list cs (C_os_Open (ai_fullname ar)) \<le> 1"
  | (zip) ar1 fl cs where
      "ai_files ar1 = []" "ai_ArchiveType ar1 = ARCHIVE_ZIP"
      "os_Open w (ai_fullname ar1) = Inr fl"
      "GetArchiveInfo w path =
         (fst (loadFilesInZipArchive w ar1), cs @ snd (loadFilesInZipArchive w ar1))"
  | (sevenzip) ar1 fl cs where
      "ai_files ar1 = []" "ai_ArchiveType ar1 = ARCHIVE_7Z"
      "os_Open w (ai_fullname ar1) = Inr fl"
      "GetArchiveInfo w path =
         (fst (loadFilesIn7ZArchive w ar1), cs @ snd (loadFilesIn7ZArchive w ar1))"
  | (tgz) ar1 fl cs where
      "ai_files ar1 = []" "ai_ArchiveType ar1 = ARCHIVE_TGZ"
      "os_Open w (ai_fullname ar1) = Inr fl"
      "GetArchiveInfo w path =
         (fst (loadFilesInTgzArchive w ar1), cs @ snd (loadFilesInTgzArchive w ar1))"
proof (cases "os_PathSeparator w \<in> set path \<and> length (filepath_Dir w path) = 0")
  case True
  then show ?thesis
    by (intro not_cataloged [of arinstance None
          "[C_Printf (''Error: Invalid input path.'' @ [CHR 0x0A])]"])
       (simp_all add: GetArchiveInfo_def arinstance_def)
next
  case False
  define ar0 where "ar0 =
    (if os_PathSeparator w \<in> set path
     then arinstance\<lparr>ai_path := filepath_Dir w path, ai_name := filepath_Base w path\<rparr>
     else arinstance\<lparr>ai_path := os_Getwd w, ai_name := path\<rparr>)"
  define cs0 where "cs0 = (if os_PathSeparator w \<in> set path then [] else [C_os_Getwd])"
  have g: "GetArchiveInfo w path = GetArchiveInfo_file w ar0 cs0"
    using False by (auto simp: GetArchiveInfo_def ar0_def cs0_def Let_def)
  have z: "ai_files ar0 = []" "ai_ArchiveType ar0 = ARCHIVE_UNINIT"
    by (simp_all add: ar0_def arinstance_def)
  have c0: "\<forall>c\<in>set cs0. \<not> codec_call c" "\<And>p. count_list cs0 (C_os_Open p) = 0"
    by (simp_all add: cs0_def)
  show ?thesis
  proof (cases rule: GetArchiveInfo_file_cases [where w = w and ?ar0.0 = ar0 and cs = cs0])
    case (not_cataloged ar err cs')
    then show ?thesis
      using g z c0 by (intro that(1) [of ar err "cs0 @ cs'"]) auto
  next
    case (zip ar1 fl cs')
    then show ?thesis
      using g z by (intro that(2) [of ar1 fl "cs0 @ cs'"]) simp_all
  next
    case (sevenzip ar1 fl cs')
    then show ?thesis
      using g z by (intro that(3) [of ar1 fl "cs0 @ cs'"]) simp_all
  next
    case (tgz ar1 fl cs')
    then show ?thesis
      using g z by (intro that(4) [of ar1 fl "cs0 @ cs'"]) simp_all
  qed
qed

text \<open>Lookup is \<open>find\<close> on the catalog.\<close>

lemma IndexFunc_from_find:
  "(if IndexFunc_from (length pre) s f = -1 then None
    else Some ((pre @ s) ! nat (IndexFunc_from (length pre) s f))) = find f s"
proof (induction s arbitrary: pre)
  case Nil
  show ?case by simp
next
  case (Cons e s)
  have ih: "(if IndexFunc_from (Suc (length pre)) s f = -1 then None
             else Some ((pre @ e # s) ! nat (IndexFunc_from (Suc (length pre)) s f))) = find f s"
    using Cons.IH [of "pre @ [e]"] by (simp split: if_splits)
  show ?case
  proof (cases "f e")
    case True
    then show ?thesis by simp
  next
    case False
    then show ?thesis using ih by (simp split: if_splits)
  qed
qed

lemma File_find: "File ai fname = find (\<lambda>e. af_name e = fname) (ai_files ai)"
proof (cases "ai_files ai = []")
  case True
  then show ?thesis by (simp add: File_def)
next
  case False
  have "(if IndexFunc_from 0 (ai_files ai) (\<lambda>e. af_name e = fname) = -1 then None
         else Some (ai_files ai ! nat (IndexFunc_from 0 (ai_files ai) (\<lambda>e. af_name e = fname))))
        = find (\<lambda>e. af_name e = fname) (ai_files ai)"
    using IndexFunc_from_find [of "[]" "ai_files ai" "\<lambda>e. af_name e = fname"]
    by (simp split: if_splits)
  with False show ?thesis
    by (simp add: File_def IndexFunc_def Let_def)
qed

lemma getArchiveType_sniff:
  assumes "5 \<le> ai_size ar" "os_Open w (ai_fullname ar) = Inr fl" "rd_err fl = None"
    "5 \<le> rd_limit fl" "5 \<le> length (rd_payload fl)"
  shows "fst (getArchiveType w ar) =
           (ar\<lparr>ai_ArchiveType := detect_by_signature (rd_payload fl)\<rparr>, None)"
proof -
  from assms(5) obtain b0 b1 b2 b3 b4 rest where p: "rd_payload fl = b0 # b1 # b2 # b3 # b4 # rest"
    by (cases "rd_payload fl" rule: list.exhaust; simp)
       (metis Suc_le_length_iff numeral_eq_Suc pred_numeral_simps(2,3) semiring_norm(26,27))
  have m: "min 5 (rd_limit fl) = 5"
    using assms(4) by simp
  have r: "Read fl (replicate 5 0) = ([b0, b1, b2, b3, b4], None)"
    using assms(3) by (simp add: Read_def m p)
  show ?thesis
    using assms(1,2) by (auto simp: getArchiveType_def r detect_by_signature_def p Let_def)
qed

section \<open>Facts about cataloging, extraction and the examples\<close>

lemma loadFilesInZipArchive_cases:
  obtains
    (failed) e where "zip_OpenReader w (ai_fullname ar) = Inl e"
      "loadFilesInZipArchive w ar =
         ((ar, Some (Errorf_Could_not_open (ai_fullname ar) e)),
          [C_zip_OpenReader (ai_fullname ar)])"
  | (loaded) zs where "zip_OpenReader w (ai_fullname ar) = Inr zs"
      "loadFilesInZipArchive w ar =
         ((ar\<lparr>ai_files := ai_files ar @ map (zip_ArchivedFile (ai_fullname ar)) zs\<rparr>, None),
          [C_zip_OpenReader (ai_fullname ar)])"
  by (cases "zip_OpenReader w (ai_fullname ar)")
     (simp_all add: loadFilesInZipArchive_def zip_load_loop_eq)

lemma loadFilesIn7ZArchive_cases:
  obtains
    (failed) e where "sevenzip_OpenReader w (ai_fullname ar) = Inl e"
      "loadFilesIn7ZArchive w ar =
         ((ar, Some (Errorf_Could_not_open (ai_fullname ar) e)),
          [C_sevenzip_OpenReader (ai_fullname ar)])"
  | (loaded) zs where "sevenzip_OpenReader w (ai_fullname ar) = Inr zs"
      "loadFilesIn7ZArchive w ar =
         ((ar\<lparr>ai_files := ai_files ar @ map (sevenzip_ArchivedFile (ai_fullname ar)) zs\<rparr>, None),
          [C_sevenzip_OpenReader (ai_fullname ar)])"
  by (cases "sevenzip_OpenReader w (ai_fullname ar)")
     (simp_all add: loadFilesIn7ZArchive_def sevenzip_load_loop_eq)

lemma loadFilesInTgzArchive_cases:
  obtains
    (open_failed) e where "os_Open w (ai_fullname ar) = Inl e"
      "loadFilesInTgzArchive w ar =
         ((ar, Some (Errorf_Could_not_open (ai_fullname ar) e)), [C_os_Open (ai_fullname ar)])"
  | (gzip_failed) fl e where "os_Open w (ai_fullname ar) = Inr fl"
      "gzip_NewReader w (ai_fullname ar) = Inl e"
      "loadFilesInTgzArchive w ar =
         ((ar, Some (Errorf_Could_not_open (ai_fullname ar) e)),
          [C_os_Open (ai_fullname ar), C_gzip_NewReader (ai_fullname ar)])"
  | (walked) fl s where "os_Open w (ai_fullname ar) = Inr fl"
      "gzip_NewReader w (ai_fullname ar) = Inr s"
      "loadFilesInTgzArchive w ar =
         ((ar\<lparr>ai_files := ai_files ar @ map (tgz_ArchivedFile (ai_fullname ar) \<circ> fst) (fst s)\<rparr>,
           if snd s = io_EOF then None else Some (snd s)),
          [C_os_Open (ai_fullname ar), C_gzip_NewReader (ai_fullname ar)]
            @ replicate (Suc (length (fst s))) C_tar_Next)"
proof (cases "os_Open w (ai_fullname ar)")
  case (Inl e)
  then show ?thesis
    by (intro open_failed [of e]) (simp_all add: loadFilesInTgzArchive_def)
next
  case o: (Inr fl)
  show ?thesis
  proof (cases "gzip_NewReader w (ai_fullname ar)")
    case (Inl e)
    with o show ?thesis
      by (intro gzip_failed [of fl e]) (simp_all add: loadFilesInTgzArchive_def)
  next
    case (Inr s)
    with o show ?thesis
      by (intro walked [of fl s]) (simp_all add: loadFilesInTgzArchive_opened)
  qed
qed

lemma loadFilesInZipArchive_type:
  "ai_ArchiveType (fst (fst (loadFilesInZipArchive w ar))) = ai_ArchiveType ar"
  by (cases rule: loadFilesInZipArchive_cases [where w = w and ar = ar]) simp_all

lemma loadFilesIn7ZArchive_type:
  "ai_ArchiveType (fst (fst (loadFilesIn7ZArchive w ar))) = ai_ArchiveType ar"
  by (cases rule: loadFilesIn7ZArchive_cases [where w = w and ar = ar]) simp_all

lemma loadFilesInTgzArchive_type:
  "ai_ArchiveType (fst (fst (loadFilesInTgzArchive w ar))) = ai_ArchiveType ar"
  by (cases rule: loadFilesInTgzArchive_cases [where w = w and ar = ar]) simp_all

lemma loadFilesInTgzArchive_files:
  "\<exists>hs. ai_files (fst (fst (loadFilesInTgzArchive w ar))) =
          ai_files ar @ map (tgz_ArchivedFile (ai_fullname ar)) hs"
proof (cases rule: loadFilesInTgzArchive_cases [where w = w and ar = ar])
  case (open_failed e)
  then show ?thesis by (intro exI [of _ "[]"]) simp
next
  case (gzip_failed fl e)
  then show ?thesis by (intro exI [of _ "[]"]) simp
next
  case (walked fl s)
  then show ?thesis by (intro exI [of _ "map fst (fst s)"]) simp
qed

lemma extractZipFileBytes_length:
  assumes "fst (extractZipFileBytes w af) = Inr (Some bs, err)"
  shows "int (length bs) = af_size af"
proof (cases "make_bytes (runtime_maxAlloc w) (af_size af)")
  case (Inl p)
  with assms show ?thesis by (simp add: extractZipFileBytes_def)
next
  case (Inr buffer)
  then have n: "0 \<le> af_size af \<and> af_size af \<le> int (runtime_maxAlloc w)"
    by (auto dest: make_bytes_Inr)
  show ?thesis
  proof (cases "zip_OpenReader w (af_archivefile af)")
    case (Inl e)
    with Inr assms show ?thesis by (simp add: extractZipFileBytes_def)
  next
    case (Inr zs)
    from assms show ?thesis
      unfolding extractZipFileBytes_opened [OF Inr n] using n
      by (auto simp: length_Read split: option.splits sum.splits)
  qed
qed

lemma extract7ZFileBytes_length:
  assumes "fst (extract7ZFileBytes w af) = Inr (Some bs, err)"
  shows "int (length bs) = af_size af"
proof (cases "sevenzip_OpenReader w (af_archivefile af)")
  case (Inl e)
  with assms show ?thesis by (simp add: extract7ZFileBytes_def)
next
  case o: (Inr zs)
  show ?thesis
  proof (cases "make_bytes (runtime_maxAlloc w) (af_size af)")
    case (Inl p)
    with o assms show ?thesis by (simp add: extract7ZFileBytes_def)
  next
    case (Inr buffer)
    then have n: "0 \<le> af_size af \<and> af_size af \<le> int (runtime_maxAlloc w)"
      by (auto dest: make_bytes_Inr)
    from assms show ?thesis
      unfolding extract7ZFileBytes_opened [OF o n] using n
      by (auto simp: length_Read split: option.splits sum.splits)
  qed
qed

lemma extractTgzFileBytes_length:
  assumes "fst (extractTgzFileBytes w af) = Inr (Some bs, err)"
  shows "int (length bs) = af_size af"
proof (cases "make_bytes (runtime_maxAlloc w) (af_size af)")
  case (Inl p)
  with assms show ?thesis by (simp add: extractTgzFileBytes_def)
next
  case b: (Inr buffer)
  then have n: "0 \<le> af_size af \<and> af_size af \<le> int (runtime_maxAlloc w)"
    by (auto dest: make_bytes_Inr)
  show ?thesis
  proof (cases "os_Open w (af_archivefile af)")
    case (Inl e)
    with b assms show ?thesis by (simp add: extractTgzFileBytes_def)
  next
    case o: (Inr fl)
    show ?thesis
    proof (cases "gzip_NewReader w (af_archivefile af)")
      case (Inl e)
      with b o assms show ?thesis by (simp add: extractTgzFileBytes_def)
    next
      case (Inr s)
      from assms show ?thesis
        unfolding extractTgzFileBytes_opened [OF o Inr n] using n
        by (auto simp: length_Read split: option.splits)
    qed
  qed
qed

lemma GetBytes_length:
  "fst (GetBytes w e) = Inr (Some bs, err) \<Longrightarrow> int (length bs) = af_size e"
  by (auto simp: GetBytes_def extractZipFileBytes_length extract7ZFileBytes_length
      extractTgzFileBytes_length split: if_splits)

lemma example_zip_catalog:
  "fst (fst (GetArchiveInfo (example_world k) ''/data/a.zip'')) =
     \<lparr>ai_path = ''/data'', ai_name = ''a.zip'', ai_fullname = ''/data/a.zip'', ai_size = 200,
      ai_ArchiveType = ARCHIVE_ZIP,
      ai_files = map (zip_ArchivedFile ''/data/a.zip'') (example_zip k)\<rparr>"
  by (simp add: GetArchiveInfo_def GetArchiveInfo_file_def getArchiveType_def Read_def
      loadFilesInZipArchive_def zip_load_loop_eq example_world_def example_Dir_def
      example_Base_def at_path_def bytes_reader_def arinstance_def Let_def)

lemma example_tgz_catalog:
  "fst (fst (GetArchiveInfo (example_world k) ''/data/c.tgz'')) =
     \<lparr>ai_path = ''/data'', ai_name = ''c.tgz'', ai_fullname = ''/data/c.tgz'', ai_size = 150,
      ai_ArchiveType = ARCHIVE_TGZ,
      ai_files = map (tgz_ArchivedFile ''/data/c.tgz'' \<circ> fst) (example_tar k)\<rparr>"
  by (simp add: GetArchiveInfo_def GetArchiveInfo_file_def getArchiveType_def Read_def
      loadFilesInTgzArchive_opened example_world_def example_Dir_def example_Base_def
      at_path_def bytes_reader_def arinstance_def Let_def)

text \<open>
  With no header of the wanted name, the gzipped-tar extractor walks the whole stream and
  then reads from a reader that has already failed.
\<close>

lemma extractTgzFileBytes_absent:
  assumes o: "os_Open w (af_archivefile af) = Inr fl"
      and g: "gzip_NewReader w (af_archivefile af) = Inr s"
      and n: "0 \<le> af_size af \<and> af_size af \<le> int (runtime_maxAlloc w)"
      and a: "\<forall>hr\<in>set (fst s). th_Name (fst hr) \<noteq> af_name af"
  shows "extractTgzFileBytes w af =
     (Inr (Some (replicate (nat (af_size af)) 0), Some (snd s)),
      [C_os_Open (af_archivefile af), C_gzip_NewReader (af_archivefile af)]
        @ replicate (Suc (length (fst s))) C_tar_Next @ [C_tar_Read])"
proof (cases "fst s")
  case Nil
  then show ?thesis
    using o g n
    by (simp add: extractTgzFileBytes_def make_bytes_in_range tar_Next_def tar_NewReader_def
        tgz_locate_loop_stop tar_Read_def)
next
  case (Cons hr rest)
  let ?tr = "\<lparr>tr_pending = rest, tr_last = snd s, tr_curr = Some (snd hr), tr_err = None\<rparr>"
  let ?cs = "[C_os_Open (af_archivefile af), C_gzip_NewReader (af_archivefile af), C_tar_Next]"
  let ?buf = "replicate (nat (af_size af)) (0::byte)"
  let ?L = "tgz_locate_loop af ?tr (Some (fst hr)) None ?cs"
  have nx: "tar_Next (tar_NewReader s) = ((Some (fst hr), None), ?tr)"
    using Cons by (simp add: tar_Next_def tar_NewReader_def)
  have none: "find (\<lambda>hr. th_Name (fst hr) = af_name af) ((fst hr, snd hr) # tr_pending ?tr) = None"
    using a Cons by (force simp: find_None_iff)
  have f: "tar_Read (fst ?L) ?buf = (?buf, Some (tr_last ?tr))
        \<and> snd ?L = (Some (tr_last ?tr), ?cs @ replicate (Suc (length (tr_pending ?tr))) C_tar_Next)"
    using tgz_locate_loop_find [of ?tr "snd hr" af "fst hr" ?cs ?buf]
    unfolding none by simp
  have e: "extractTgzFileBytes w af =
      (Inr (Some (fst (tar_Read (fst ?L) ?buf)), fst (snd ?L)), snd (snd ?L) @ [C_tar_Read])"
    using o g n by (simp add: extractTgzFileBytes_def make_bytes_in_range nx Let_def)
  show ?thesis
    unfolding e using f Cons by (simp add: replicate_append_same)
qed

lemma example_notes_info:
  "GetArchiveInfo (example_world 2) ''/data/notes.txt'' =
     ((\<lparr>ai_path = ''/data'', ai_name = ''notes.txt'', ai_fullname = ''/data/notes.txt'',
        ai_size = 12, ai_ArchiveType = ARCHIVE_NA, ai_files = []\<rparr>, None),
      [C_os_Stat ''/data/notes.txt'', C_os_Open ''/data/notes.txt'',
       C_file_Read ''/data/notes.txt''])"
  by (simp add: GetArchiveInfo_def GetArchiveInfo_file_def getArchiveType_def Read_def
      example_world_def example_Dir_def example_Base_def at_path_def bytes_reader_def
      arinstance_def Let_def)

lemma example_bad_tgz_info:
  "GetArchiveInfo (example_world 2) ''/data/bad.tgz'' =
     ((\<lparr>ai_path = ''/data'', ai_name = ''bad.tgz'', ai_fullname = ''/data/bad.tgz'',
        ai_size = 90, ai_ArchiveType = ARCHIVE_TGZ,
        ai_files = [tgz_ArchivedFile ''/data/bad.tgz'' (fst (example_tar 2 ! 0))]\<rparr>,
       Some (lib_error ''unexpected EOF'')),
      [C_os_Stat ''/data/bad.tgz'', C_os_Open ''/data/bad.tgz'', C_file_Read ''/data/bad.tgz'',
       C_os_Open ''/data/bad.tgz'', C_gzip_NewReader ''/data/bad.tgz'', C_tar_Next, C_tar_Next])"
  by (simp add: GetArchiveInfo_def GetArchiveInfo_file_def getArchiveType_def Read_def
      loadFilesInTgzArchive_opened example_world_def example_Dir_def example_Base_def
      at_path_def bytes_reader_def arinstance_def example_tar_def Let_def)

text \<open>One \<open>Read\<close> into a fresh buffer: what the reader delivers, then the zeros left.\<close>

lemma Read_fresh_buffer:
  "fst (Read r (replicate n 0)) =
     take (min n (rd_limit r)) (rd_payload r)
       @ replicate (n - min (min n (rd_limit r)) (length (rd_payload r))) 0"
  by (simp add: Read_def Let_def min.assoc)

text \<open>
  Extraction of an entry whose size \<open>make\<close> accepts, by what the codec reports for the
  entry's name: a member that opens is read once into the fresh buffer, a member that
  does not open gives its error and no bytes.
\<close>

lemma GetBytes_of_member:
  assumes n: "0 \<le> af_size e \<and> af_size e \<le> int (runtime_maxAlloc w)"
      and o: "af_archivetype e = ARCHIVE_TGZ \<longrightarrow> (\<exists>fl. os_Open w (af_archivefile e) = Inr fl)"
  shows "codec_member w e = Some (Inr r) \<Longrightarrow>
           fst (GetBytes w e) = Inr (Some (fst (Read r (replicate (nat (af_size e)) 0))), None)"
    and "codec_member w e = Some (Inl err) \<Longrightarrow> fst (GetBytes w e) = Inr (None, Some err)"
proof -
  consider (zip) "af_archivetype e = ARCHIVE_ZIP" | (sevenzip) "af_archivetype e = ARCHIVE_7Z"
    | (tgz) "af_archivetype e = ARCHIVE_TGZ"
    | (other) "af_archivetype e \<noteq> ARCHIVE_ZIP" "af_archivetype e \<noteq> ARCHIVE_7Z"
        "af_archivetype e \<noteq> ARCHIVE_TGZ"
    by blast
  then have "(codec_member w e = Some (Inr r) \<longrightarrow>
           fst (GetBytes w e) = Inr (Some (fst (Read r (replicate (nat (af_size e)) 0))), None))
        \<and> (codec_member w e = Some (Inl err) \<longrightarrow> fst (GetBytes w e) = Inr (None, Some err))"
  proof cases
    case zip
    show ?thesis
    proof (cases "zip_OpenReader w (af_archivefile e)")
      case (Inl x)
      with zip show ?thesis by (simp add: codec_member_def)
    next
      case (Inr zs)
      show ?thesis
        using zip Inr
        by (auto simp: codec_member_def GetBytes_def extractZipFileBytes_opened [OF Inr n])
    qed
  next
    case sevenzip
    show ?thesis
    proof (cases "sevenzip_OpenReader w (af_archivefile e)")
      case (Inl x)
      with sevenzip show ?thesis by (simp add: codec_member_def)
    next
      case (Inr zs)
      show ?thesis
        using sevenzip Inr
        by (auto simp: codec_member_def GetBytes_def extract7ZFileBytes_opened [OF Inr n])
    qed
  next
    case tgz
    from o tgz obtain fl where fl: "os_Open w (af_archivefile e) = Inr fl"
      by blast
    show ?thesis
    proof (cases "gzip_NewReader w (af_archivefile e)")
      case (Inl x)
      with tgz show ?thesis by (simp add: codec_member_def)
    next
      case (Inr s)
      show ?thesis
        using tgz Inr
        by (auto simp: codec_member_def GetBytes_def extractTgzFileBytes_opened [OF fl Inr n])
    qed
  next
    case other
    then show ?thesis
      by (simp add: codec_member_def)
  qed
  then show "codec_member w e = Some (Inr r) \<Longrightarrow>
           fst (GetBytes w e) = Inr (Some (fst (Read r (replicate (nat (af_size e)) 0))), None)"
    and "codec_member w e = Some (Inl err) \<Longrightarrow> fst (GetBytes w e) = Inr (None, Some err)"
    by simp_all
qed

text \<open>
  A cataloged entry carries the type and the path of its container, which opened when it
  was cataloged, and the name of one of the container's members.
\<close>

lemma GetArchiveInfo_entry_cases:
  assumes "e \<in> set (ai_files (fst (fst (GetArchiveInfo w path))))"
  obtains
    (zip) zs z where "af_archivetype e = ARCHIVE_ZIP"
      "zip_OpenReader w (af_archivefile e) = Inr zs" "z \<in> set zs" "e = zip_ArchivedFile (af_archivefile e) z"
  | (sevenzip) zs z where "af_archivetype e = ARCHIVE_7Z"
      "sevenzip_OpenReader w (af_archivefile e) = Inr zs" "z \<in> set zs"
      "e = sevenzip_ArchivedFile (af_archivefile e) z"
  | (tgz) fl s hr where "af_archivetype e = ARCHIVE_TGZ"
      "os_Open w (af_archivefile e) = Inr fl" "gzip_NewReader w (af_archivefile e) = Inr s"
      "hr \<in> set (fst s)" "e = tgz_ArchivedFile (af_archivefile e) (fst hr)"
proof (cases rule: GetArchiveInfo_cases [where w = w and path = path])
  case (not_cataloged ar err cs)
  with assms show ?thesis by simp
next
  case c: (zip ar1 fl cs)
  show ?thesis
  proof (cases rule: loadFilesInZipArchive_cases [where w = w and ar = ar1])
    case (failed x)
    with c assms show ?thesis by simp
  next
    case (loaded zs)
    with c assms obtain z where "z \<in> set zs" "e = zip_ArchivedFile (ai_fullname ar1) z"
      by auto
    with loaded show ?thesis
      by (intro zip [of zs z]) (simp_all add: zip_ArchivedFile_def)
  qed
next
  case c: (sevenzip ar1 fl cs)
  show ?thesis
  proof (cases rule: loadFilesIn7ZArchive_cases [where w = w and ar = ar1])
    case (failed x)
    with c assms show ?thesis by simp
  next
    case (loaded zs)
    with c assms obtain z where "z \<in> set zs" "e = sevenzip_ArchivedFile (ai_fullname ar1) z"
      by auto
    with loaded show ?thesis
      by (intro sevenzip [of zs z]) (simp_all add: sevenzip_ArchivedFile_def)
  qed
next
  case c: (tgz ar1 fl cs)
  show ?thesis
  proof (cases rule: loadFilesInTgzArchive_cases [where w = w and ar = ar1])
    case (open_failed x)
    with c assms show ?thesis by simp
  next
    case (gzip_failed fl' x)
    with c assms show ?thesis by simp
  next
    case (walked fl' s)
    with c assms obtain hr where "hr \<in> set (fst s)" "e = tgz_ArchivedFile (ai_fullname ar1) (fst hr)"
      by auto
    with walked show ?thesis
      by (intro tgz [of fl' s hr]) (simp_all add: tgz_ArchivedFile_def)
  qed
qed

lemma find_member:
  "z \<in> set zs \<Longrightarrow> \<exists>z'. find (\<lambda>x. f x = f z) zs = Some z'"
  by (cases "find (\<lambda>x. f x = f z) zs") (auto simp: find_None_iff)

text \<open>The codec reports a member for the name of every cataloged entry.\<close>

lemma GetArchiveInfo_entry_member:
  assumes "e \<in> set (ai_files (fst (fst (GetArchiveInfo w path))))"
  shows "\<exists>m. codec_member w e = Some m"
  using assms
proof (cases rule: GetArchiveInfo_entry_cases)
  case (zip zs z)
  have n: "af_name e = zf_Name z"
    by (subst zip(4)) (simp add: zip_ArchivedFile_def)
  from find_member [OF zip(3), of zf_Name] zip(1,2) show ?thesis
    by (auto simp: codec_member_def n)
next
  case (sevenzip zs z)
  have n: "af_name e = sf_Name z"
    by (subst sevenzip(4)) (simp add: sevenzip_ArchivedFile_def)
  from find_member [OF sevenzip(3), of sf_Name] sevenzip(1,2) show ?thesis
    by (auto simp: codec_member_def n)
next
  case (tgz fl s hr)
  have n: "af_name e = th_Name (fst hr)"
    by (subst tgz(5)) (simp add: tgz_ArchivedFile_def)
  from find_member [OF tgz(4), of "th_Name \<circ> fst"] tgz(1,3) show ?thesis
    by (auto simp: codec_member_def n)
qed

text \<open>A cataloged entry whose size \<open>make\<close> refuses makes extraction panic.\<close>

lemma GetBytes_cataloged_out_of_range:
  assumes "e \<in> set (ai_files (fst (fst (GetArchiveInfo w path))))"
      and r: "af_size e < 0 \<or> int (runtime_maxAlloc w) < af_size e"
  shows "fst (GetBytes w e) = Inl makeslice_len_out_of_range"
  using assms(1)
proof (cases rule: GetArchiveInfo_entry_cases)
  case (zip zs z)
  then show ?thesis
    by (simp add: GetBytes_def extractZipFileBytes_def make_bytes_out_of_range [OF r])
next
  case (sevenzip zs z)
  then show ?thesis
    by (simp add: GetBytes_def extract7ZFileBytes_def make_bytes_out_of_range [OF r])
next
  case (tgz fl s hr)
  then show ?thesis
    by (simp add: GetBytes_def extractTgzFileBytes_def make_bytes_out_of_range [OF r])
qed

lemma example_odd_catalog:
  "fst (fst (GetArchiveInfo (example_world k) ''/data/odd.zip'')) =
     \<lparr>ai_path = ''/data'', ai_name = ''odd.zip'', ai_fullname = ''/data/odd.zip'', ai_size = 400,
      ai_ArchiveType = ARCHIVE_ZIP,
      ai_files = map (zip_ArchivedFile ''/data/odd.zip'') example_odd_zip\<rparr>"
  by (simp add: GetArchiveInfo_def GetArchiveInfo_file_def getArchiveType_def Read_def
      loadFilesInZipArchive_def zip_load_loop_eq example_world_def example_Dir_def
      example_Base_def at_path_def bytes_reader_def arinstance_def Let_def)

section \<open>The claims\<close>

subsection \<open>C1\<close>

text \<open>
  C1, as amended: for every entry produced by cataloging, the codec reports a member for
  the entry's name, and extraction on the entry does one of three things. When the
  recorded size is negative or above the allocation limit, it panics in \<open>make\<close>. Otherwise,
  when the codec does not open the member, it returns that error and no bytes. Otherwise
  it returns, with no error, a byte sequence whose length is the recorded size: the bytes
  that the single \<open>Read\<close> delivers, followed by zeros. That sequence is byte-for-byte the
  codec's payload when the \<open>Read\<close> delivers the whole payload and the payload is as long as
  the recorded size. Whenever bytes are returned, their length is the recorded size.
\<close>

theorem C1_extraction_of_cataloged_entry:
  assumes "e \<in> set (ai_files (fst (fst (GetArchiveInfo w path))))"
  shows "(\<exists>m. codec_member w e = Some m)
     \<and> (af_size e < 0 \<or> int (runtime_maxAlloc w) < af_size e \<longrightarrow>
          fst (GetBytes w e) = Inl makeslice_len_out_of_range)
     \<and> (\<forall>err. 0 \<le> af_size e \<and> af_size e \<le> int (runtime_maxAlloc w)
              \<and> codec_member w e = Some (Inl err) \<longrightarrow>
            fst (GetBytes w e) = Inr (None, Some err))
     \<and> (\<forall>r. 0 \<le> af_size e \<and> af_size e \<le> int (runtime_maxAlloc w)
              \<and> codec_member w e = Some (Inr r) \<longrightarrow>
            fst (GetBytes w e) =
              Inr (Some (take (min (nat (af_size e)) (rd_limit r)) (rd_payload r)
                         @ replicate
                             (nat (af_size e)
                                - min (min (nat (af_size e)) (rd_limit r)) (length (rd_payload r)))
                             0),
                   None))
     \<and> (\<forall>r. af_size e \<le> int (runtime_maxAlloc w)
              \<and> codec_member w e = Some (Inr r)
              \<and> int (length (rd_payload r)) = af_size e
              \<and> length (rd_payload r) \<le> rd_limit r \<longrightarrow>
            fst (GetBytes w e) = Inr (Some (rd_payload r), None))
     \<and> (\<forall>bs err. fst (GetBytes w e) = Inr (Some bs, err) \<longrightarrow> int (length bs) = af_size e)"
proof -
  have o: "af_archivetype e = ARCHIVE_TGZ \<longrightarrow> (\<exists>fl. os_Open w (af_archivefile e) = Inr fl)"
    using assms by (cases rule: GetArchiveInfo_entry_cases) simp_all
  have c1: "\<exists>m. codec_member w e = Some m"
    using assms by (rule GetArchiveInfo_entry_member)
  have c2: "af_size e < 0 \<or> int (runtime_maxAlloc w) < af_size e \<longrightarrow>
          fst (GetBytes w e) = Inl makeslice_len_out_of_range"
    using assms by (blast intro: GetBytes_cataloged_out_of_range)
  have c3: "\<forall>err. 0 \<le> af_size e \<and> af_size e \<le> int (runtime_maxAlloc w)
              \<and> codec_member w e = Some (Inl err) \<longrightarrow>
            fst (GetBytes w e) = Inr (None, Some err)"
    using o by (blast intro: GetBytes_of_member(2))
  have m: "fst (GetBytes w e) = Inr (Some (fst (Read r (replicate (nat (af_size e)) 0))), None)"
    if "0 \<le> af_size e \<and> af_size e \<le> int (runtime_maxAlloc w)"
      and "codec_member w e = Some (Inr r)" for r
    using that o by (intro GetBytes_of_member(1))
  have c4: "\<forall>r. 0 \<le> af_size e \<and> af_size e \<le> int (runtime_maxAlloc w)
              \<and> codec_member w e = Some (Inr r) \<longrightarrow>
            fst (GetBytes w e) =
              Inr (Some (take (min (nat (af_size e)) (rd_limit r)) (rd_payload r)
                         @ replicate
                             (nat (af_size e)
                                - min (min (nat (af_size e)) (rd_limit r)) (length (rd_payload r)))
                             0),
                   None)"
    using m by (simp add: Read_fresh_buffer)
  have c5: "\<forall>r. af_size e \<le> int (runtime_maxAlloc w)
              \<and> codec_member w e = Some (Inr r)
              \<and> int (length (rd_payload r)) = af_size e
              \<and> length (rd_payload r) \<le> rd_limit r \<longrightarrow>
            fst (GetBytes w e) = Inr (Some (rd_payload r), None)"
  proof (intro allI impI)
    fix r
    assume a: "af_size e \<le> int (runtime_maxAlloc w)
              \<and> codec_member w e = Some (Inr r)
              \<and> int (length (rd_payload r)) = af_size e
              \<and> length (rd_payload r) \<le> rd_limit r"
    then have "0 \<le> af_size e \<and> af_size e \<le> int (runtime_maxAlloc w)"
      by linarith
    with a have "fst (GetBytes w e) = Inr (Some (fst (Read r (replicate (nat (af_size e)) 0))), None)"
      by (intro m) simp_all
    moreover have "nat (af_size e) = length (rd_payload r)"
      using a by linarith
    then have "fst (Read r (replicate (nat (af_size e)) 0)) = rd_payload r"
      using a by (intro Read_whole) simp_all
    ultimately show "fst (GetBytes w e) = Inr (Some (rd_payload r), None)"
      by simp
  qed
  have c6: "\<forall>bs err. fst (GetBytes w e) = Inr (Some bs, err) \<longrightarrow> int (length bs) = af_size e"
    by (blast intro: GetBytes_length)
  from c1 c2 c3 c4 c5 c6 show ?thesis
    by (intro conjI)
qed

theorem C1_extraction_of_cataloged_entry_witness:
  "fst (GetBytes (example_world 4096) (zip_ArchivedFile ''/data/a.zip'' (example_zip 4096 ! 0)))
     = Inr (Some [1, 2, 3, 4], None)
   \<and> fst (GetBytes (example_world 4096) (tgz_ArchivedFile ''/data/c.tgz'' (fst (example_tar 4096 ! 1))))
     = Inr (Some [10, 11, 12], None)
   \<and> codec_member (example_world 2) (zip_ArchivedFile ''/data/a.zip'' (example_zip 2 ! 0))
     = Some (Inr (bytes_reader 2 [1, 2, 3, 4]))
   \<and> fst (GetBytes (example_world 2) (zip_ArchivedFile ''/data/a.zip'' (example_zip 2 ! 0)))
     = Inr (Some [1, 2, 0, 0], None)
   \<and> af_size (zip_ArchivedFile ''/data/odd.zip'' (example_odd_zip ! 0)) < 0
   \<and> fst (GetBytes (example_world 2) (zip_ArchivedFile ''/data/odd.zip'' (example_odd_zip ! 0)))
     = Inl makeslice_len_out_of_range
   \<and> int (runtime_maxAlloc (example_world 2))
       < af_size (zip_ArchivedFile ''/data/odd.zip'' (example_odd_zip ! 1))
   \<and> fst (GetBytes (example_world 2) (zip_ArchivedFile ''/data/odd.zip'' (example_odd_zip ! 1)))
     = Inl makeslice_len_out_of_range
   \<and> fst (GetBytes (example_world 2) (zip_ArchivedFile ''/data/odd.zip'' (example_odd_zip ! 2)))
     = Inr (None, Some (lib_error ''zip: unsupported compression algorithm''))"
proof -
  let ?W = "example_world 4096"
  let ?w = "example_world 2"
  let ?a = "zip_ArchivedFile ''/data/a.zip'' (example_zip 4096 ! 0)"
  let ?t = "tgz_ArchivedFile ''/data/c.tgz'' (fst (example_tar 4096 ! 1))"
  let ?s = "zip_ArchivedFile ''/data/a.zip'' (example_zip 2 ! 0)"
  let ?h = "zip_ArchivedFile ''/data/odd.zip'' (example_odd_zip ! 0)"
  let ?b = "zip_ArchivedFile ''/data/odd.zip'' (example_odd_zip ! 1)"
  let ?l = "zip_ArchivedFile ''/data/odd.zip'' (example_odd_zip ! 2)"
  have ia: "?a \<in> set (ai_files (fst (fst (GetArchiveInfo ?W ''/data/a.zip''))))"
    by (simp add: example_zip_catalog example_zip_def)
  have it: "?t \<in> set (ai_files (fst (fst (GetArchiveInfo ?W ''/data/c.tgz''))))"
    by (simp add: example_tgz_catalog example_tar_def)
  have i2: "?s \<in> set (ai_files (fst (fst (GetArchiveInfo ?w ''/data/a.zip''))))"
    by (simp add: example_zip_catalog example_zip_def)
  have ih: "?h \<in> set (ai_files (fst (fst (GetArchiveInfo ?w ''/data/odd.zip''))))"
    and ib: "?b \<in> set (ai_files (fst (fst (GetArchiveInfo ?w ''/data/odd.zip''))))"
    and il: "?l \<in> set (ai_files (fst (fst (GetArchiveInfo ?w ''/data/odd.zip''))))"
    by (simp_all add: example_odd_catalog example_odd_zip_def)
  have ma: "codec_member ?W ?a = Some (Inr (bytes_reader 4096 [1, 2, 3, 4]))"
    by (simp add: codec_member_def zip_ArchivedFile_def example_zip_def example_world_def
        at_path_def)
  have mt: "codec_member ?W ?t = Some (Inr (bytes_reader 4096 [10, 11, 12]))"
    by (simp add: codec_member_def tgz_ArchivedFile_def example_tar_def example_world_def
        at_path_def)
  have ms: "codec_member ?w ?s = Some (Inr (bytes_reader 2 [1, 2, 3, 4]))"
    by (simp add: codec_member_def zip_ArchivedFile_def example_zip_def example_world_def
        at_path_def)
  have ml: "codec_member ?w ?l = Some (Inl (lib_error ''zip: unsupported compression algorithm''))"
    by (simp add: codec_member_def zip_ArchivedFile_def example_odd_zip_def example_world_def
        at_path_def)
  have sa: "af_size ?a = 4" and ss: "af_size ?s = 4"
    by (simp_all add: zip_ArchivedFile_def example_zip_def)
  have st: "af_size ?t = 3"
    by (simp add: tgz_ArchivedFile_def example_tar_def)
  have sl: "af_size ?l = 4"
    by (simp add: zip_ArchivedFile_def example_odd_zip_def)
  have sh: "af_size ?h < 0"
    by (simp add: zip_ArchivedFile_def example_odd_zip_def)
  have sb: "int (runtime_maxAlloc ?w) < af_size ?b"
    by (simp add: zip_ArchivedFile_def example_odd_zip_def example_world_def)
  have lim: "runtime_maxAlloc ?W = 281474976710656" "runtime_maxAlloc ?w = 281474976710656"
    by (simp_all add: example_world_def)
  have ga: "fst (GetBytes ?W ?a) = Inr (Some [1, 2, 3, 4], None)"
    using C1_extraction_of_cataloged_entry [OF ia] ma sa lim by (simp add: bytes_reader_def)
  have gt: "fst (GetBytes ?W ?t) = Inr (Some [10, 11, 12], None)"
    using C1_extraction_of_cataloged_entry [OF it] mt st lim by (simp add: bytes_reader_def)
  have "fst (GetBytes ?w ?s) =
          Inr (Some (take (min (nat 4) 2) [1, 2, 3, 4]
                     @ replicate (nat 4 - min (min (nat 4) 2) (length [1, 2, 3, 4 :: byte])) 0),
               None)"
    using C1_extraction_of_cataloged_entry [OF i2] ms ss lim by (simp add: bytes_reader_def)
  then have gs: "fst (GetBytes ?w ?s) = Inr (Some [1, 2, 0, 0], None)"
    by (simp add: eval_nat_numeral)
  have gh: "fst (GetBytes ?w ?h) = Inl makeslice_len_out_of_range"
    using C1_extraction_of_cataloged_entry [OF ih] sh by blast
  have gb: "fst (GetBytes ?w ?b) = Inl makeslice_len_out_of_range"
    using C1_extraction_of_cataloged_entry [OF ib] sb by blast
  have gl: "fst (GetBytes ?w ?l) = Inr (None, Some (lib_error ''zip: unsupported compression algorithm''))"
    using C1_extraction_of_cataloged_entry [OF il] ml sl lim by simp
  show ?thesis
    using ga gt ms gs sh gh sb gb gl by blast
qed

text \<open>
  The claim as stated fails in three ways on cataloged ZIP entries. A member whose reader
  delivers 2 of its 4 bytes in the first \<open>Read\<close> is extracted as \<open>1 2 0 0\<close>, not as its
  payload \<open>1 2 3 4\<close>. A member whose 64-bit size has its top bit set is cataloged with a
  negative size, and extraction panics. A member that the codec does not open gives an
  error and no byte sequence.
\<close>

theorem C1_extraction_counterexample:
  "zip_ArchivedFile ''/data/a.zip'' (example_zip 2 ! 0)
     \<in> set (ai_files (fst (fst (GetArchiveInfo (example_world 2) ''/data/a.zip''))))
   \<and> af_size (zip_ArchivedFile ''/data/a.zip'' (example_zip 2 ! 0)) = 4
   \<and> codec_member (example_world 2) (zip_ArchivedFile ''/data/a.zip'' (example_zip 2 ! 0))
       = Some (Inr \<lparr>rd_payload = [1, 2, 3, 4], rd_limit = 2, rd_err = None\<rparr>)
   \<and> fst (GetBytes (example_world 2) (zip_ArchivedFile ''/data/a.zip'' (example_zip 2 ! 0)))
       = Inr (Some [1, 2, 0, 0], None)
   \<and> fst (GetBytes (example_world 2) (zip_ArchivedFile ''/data/a.zip'' (example_zip 2 ! 0)))
       \<noteq> Inr (Some [1, 2, 3, 4], None)
   \<and> zip_ArchivedFile ''/data/odd.zip'' (example_odd_zip ! 0)
     \<in> set (ai_files (fst (fst (GetArchiveInfo (example_world 2) ''/data/odd.zip''))))
   \<and> af_size (zip_ArchivedFile ''/data/odd.zip'' (example_odd_zip ! 0)) = - 9223372036854775803
   \<and> fst (GetBytes (example_world 2) (zip_ArchivedFile ''/data/odd.zip'' (example_odd_zip ! 0)))
       = Inl makeslice_len_out_of_range
   \<and> zip_ArchivedFile ''/data/odd.zip'' (example_odd_zip ! 2)
     \<in> set (ai_files (fst (fst (GetArchiveInfo (example_world 2) ''/data/odd.zip''))))
   \<and> fst (GetBytes (example_world 2) (zip_ArchivedFile ''/data/odd.zip'' (example_odd_zip ! 2)))
       = Inr (None, Some (lib_error ''zip: unsupported compression algorithm''))"
proof -
  let ?w = "example_world 2"
  let ?s = "zip_ArchivedFile ''/data/a.zip'' (example_zip 2 ! 0)"
  let ?h = "zip_ArchivedFile ''/data/odd.zip'' (example_odd_zip ! 0)"
  let ?l = "zip_ArchivedFile ''/data/odd.zip'' (example_odd_zip ! 2)"
  have i2: "?s \<in> set (ai_files (fst (fst (GetArchiveInfo ?w ''/data/a.zip''))))"
    by (simp add: example_zip_catalog example_zip_def)
  have ih: "?h \<in> set (ai_files (fst (fst (GetArchiveInfo ?w ''/data/odd.zip''))))"
    and il: "?l \<in> set (ai_files (fst (fst (GetArchiveInfo ?w ''/data/odd.zip''))))"
    by (simp_all add: example_odd_catalog example_odd_zip_def)
  have ss: "af_size ?s = 4"
    by (simp add: zip_ArchivedFile_def example_zip_def)
  have sh: "af_size ?h = - 9223372036854775803"
    by (simp add: zip_ArchivedFile_def example_odd_zip_def)
  have ms: "codec_member ?w ?s = Some (Inr \<lparr>rd_payload = [1, 2, 3, 4], rd_limit = 2, rd_err = None\<rparr>)"
    by (simp add: codec_member_def zip_ArchivedFile_def example_zip_def example_world_def
        at_path_def bytes_reader_def)
  have z: "zip_OpenReader ?w ''/data/a.zip'' = Inr (example_zip 2)"
    "zip_OpenReader ?w ''/data/odd.zip'' = Inr example_odd_zip"
    "runtime_maxAlloc ?w = 281474976710656"
    by (simp_all add: example_world_def at_path_def)
  have "fst (GetBytes ?w ?s) =
          Inr (Some (fst (Read \<lparr>rd_payload = [1, 2, 3, 4], rd_limit = 2, rd_err = None\<rparr>
                           (replicate (nat 4) 0))), None)"
    by (simp add: GetBytes_def extractZipFileBytes_def make_bytes_def z zip_ArchivedFile_def
        example_zip_def bytes_reader_def)
  then have gs: "fst (GetBytes ?w ?s) = Inr (Some [1, 2, 0, 0], None)"
    by (simp add: Read_def eval_nat_numeral)
  have ne: "fst (GetBytes ?w ?s) \<noteq> Inr (Some [1, 2, 3, 4], None)"
    by (simp add: gs)
  have gh: "fst (GetBytes ?w ?h) = Inl makeslice_len_out_of_range"
    by (simp add: GetBytes_def extractZipFileBytes_def make_bytes_def z zip_ArchivedFile_def
        example_odd_zip_def)
  have gl: "fst (GetBytes ?w ?l) = Inr (None, Some (lib_error ''zip: unsupported compression algorithm''))"
    by (simp add: GetBytes_def extractZipFileBytes_def make_bytes_def z zip_ArchivedFile_def
        example_odd_zip_def)
  show ?thesis
    using i2 ss ms gs ne ih sh gh il gl by blast
qed

subsection \<open>C2\<close>

text \<open>
  C2: a readable file of at least 5 bytes (the stat reports 5 bytes or more, the file opens,
  and the read delivers its 5 leading bytes without error) is classified from those bytes
  alone: \<open>50 4B 03 04\<close> is Zip, \<open>37 7A BC AF\<close> is SevenZip, \<open>1F 8B\<close> is GzippedTar, anything
  else NotAnArchive, the signatures tried in that order.
\<close>

theorem C2_detection_by_leading_bytes:
  assumes "5 \<le> ai_size ar"
      and "os_Open w (ai_fullname ar) = Inr fl"
      and "rd_err fl = None"
      and "5 \<le> rd_limit fl"
      and "5 \<le> length (rd_payload fl)"
  shows "fst (getArchiveType w ar) =
           (ar\<lparr>ai_ArchiveType := detect_by_signature (rd_payload fl)\<rparr>, None)"
  using assms by (rule getArchiveType_sniff)

theorem C2_detection_by_leading_bytes_witness:
  "fst (getArchiveType (example_world 1)
          (arinstance\<lparr>ai_fullname := ''/data/c.tgz'', ai_size := 150\<rparr>)) =
     (arinstance\<lparr>ai_fullname := ''/data/c.tgz'', ai_size := 150, ai_ArchiveType := ARCHIVE_TGZ\<rparr>,
      None)
   \<and> fst (getArchiveType (example_world 1)
          (arinstance\<lparr>ai_fullname := ''/data/notes.txt'', ai_size := 12\<rparr>)) =
     (arinstance\<lparr>ai_fullname := ''/data/notes.txt'', ai_size := 12, ai_ArchiveType := ARCHIVE_NA\<rparr>,
      None)"
proof -
  let ?tgz = "arinstance\<lparr>ai_fullname := ''/data/c.tgz'', ai_size := 150\<rparr>"
  let ?txt = "arinstance\<lparr>ai_fullname := ''/data/notes.txt'', ai_size := 12\<rparr>"
  let ?r1 = "bytes_reader 4096 [0x1F, 0x8B, 0x08, 0x00, 0x00, 0x00]"
  let ?r2 = "bytes_reader 4096 [0x68, 0x65, 0x6C, 0x6C, 0x6F, 0x2C]"
  have o1: "os_Open (example_world 1) (ai_fullname ?tgz) = Inr ?r1"
    by (simp add: example_world_def at_path_def)
  have o2: "os_Open (example_world 1) (ai_fullname ?txt) = Inr ?r2"
    by (simp add: example_world_def at_path_def)
  have t1: "fst (getArchiveType (example_world 1) ?tgz) =
              (?tgz\<lparr>ai_ArchiveType := detect_by_signature (rd_payload ?r1)\<rparr>, None)"
    by (rule C2_detection_by_leading_bytes [OF _ o1]) (simp_all add: bytes_reader_def)
  have t2: "fst (getArchiveType (example_world 1) ?txt) =
              (?txt\<lparr>ai_ArchiveType := detect_by_signature (rd_payload ?r2)\<rparr>, None)"
    by (rule C2_detection_by_leading_bytes [OF _ o2]) (simp_all add: bytes_reader_def)
  show ?thesis
    using t1 t2 by (simp add: detect_by_signature_def bytes_reader_def)
qed

subsection \<open>C3\<close>

text \<open>
  C3: lookup by name scans the catalog from the front and returns the first entry whose
  name is exactly the given string; it returns nothing exactly when no entry has that
  name.
\<close>

theorem C3_lookup_exact_first_match:
  "(File ai fname = None \<longleftrightarrow> (\<forall>e\<in>set (ai_files ai). af_name e \<noteq> fname))
   \<and> (\<forall>e. File ai fname = Some e \<longrightarrow>
         (\<exists>i<length (ai_files ai). e = ai_files ai ! i \<and> af_name e = fname
            \<and> (\<forall>j<i. af_name (ai_files ai ! j) \<noteq> fname)))"
  unfolding File_find
  by (auto simp: find_None_iff find_Some_iff)

theorem C3_lookup_exact_first_match_witness:
  "File example_catalog ''dir/A.txt'' = Some (ai_files example_catalog ! 1)
   \<and> af_name (ai_files example_catalog ! 0) \<noteq> ''dir/A.txt''
   \<and> File example_catalog ''dir/a.txt'' = None
   \<and> File example_catalog ''A.txt'' = None
   \<and> ''dir/a.txt'' \<notin> set (map af_name (ai_files example_catalog))"
proof -
  have n1: "\<forall>e\<in>set (ai_files example_catalog). af_name e \<noteq> ''dir/a.txt''"
    by (simp add: example_catalog_def example_zip_def zip_ArchivedFile_def)
  have n2: "\<forall>e\<in>set (ai_files example_catalog). af_name e \<noteq> ''A.txt''"
    by (simp add: example_catalog_def example_zip_def zip_ArchivedFile_def)
  have a: "File example_catalog ''dir/a.txt'' = None"
    using C3_lookup_exact_first_match [of example_catalog "''dir/a.txt''"] n1 by blast
  have b: "File example_catalog ''A.txt'' = None"
    using C3_lookup_exact_first_match [of example_catalog "''A.txt''"] n2 by blast
  have c: "File example_catalog ''dir/A.txt'' = Some (ai_files example_catalog ! 1)"
    by (simp add: File_find example_catalog_def example_zip_def zip_ArchivedFile_def)
  have d: "af_name (ai_files example_catalog ! 0) \<noteq> ''dir/A.txt''"
    by (simp add: example_catalog_def example_zip_def zip_ArchivedFile_def)
  have e: "''dir/a.txt'' \<notin> set (map af_name (ai_files example_catalog))"
    using n1 by auto
  show ?thesis
    using a b c d e by blast
qed

subsection \<open>C4\<close>

text \<open>
  C4, as amended: for an entry whose recorded size is between 0 and the allocation limit
  and whose name matches no member of the container it points to, extraction scans the
  container to its end, opens and reads no member, and returns the untouched buffer, that
  is as many zero bytes as the entry's recorded size (not a zero-length sequence); for ZIP
  and 7z the error is nil.
\<close>

theorem C4_absent_name_returns_zero_buffer:
  assumes "0 \<le> af_size af \<and> af_size af \<le> int (runtime_maxAlloc w)"
  shows "(\<forall>zs. af_archivetype af = ARCHIVE_ZIP
            \<and> zip_OpenReader w (af_archivefile af) = Inr zs
            \<and> af_name af \<notin> set (map zf_Name zs) \<longrightarrow>
          GetBytes w af =
            (Inr (Some (replicate (nat (af_size af)) 0), None),
             [C_zip_OpenReader (af_archivefile af)]))
     \<and> (\<forall>zs. af_archivetype af = ARCHIVE_7Z
            \<and> sevenzip_OpenReader w (af_archivefile af) = Inr zs
            \<and> af_name af \<notin> set (map sf_Name zs) \<longrightarrow>
          GetBytes w af =
            (Inr (Some (replicate (nat (af_size af)) 0), None),
             [C_sevenzip_OpenReader (af_archivefile af)]))
     \<and> (\<forall>fl hs e. af_archivetype af = ARCHIVE_TGZ
            \<and> os_Open w (af_archivefile af) = Inr fl
            \<and> gzip_NewReader w (af_archivefile af) = Inr (hs, e)
            \<and> af_name af \<notin> set (map (th_Name \<circ> fst) hs) \<longrightarrow>
          GetBytes w af =
            (Inr (Some (replicate (nat (af_size af)) 0), Some e),
             [C_os_Open (af_archivefile af), C_gzip_NewReader (af_archivefile af)]
               @ replicate (Suc (length hs)) C_tar_Next @ [C_tar_Read]))"
proof (intro conjI allI impI)
  fix zs
  assume h: "af_archivetype af = ARCHIVE_ZIP
            \<and> zip_OpenReader w (af_archivefile af) = Inr zs
            \<and> af_name af \<notin> set (map zf_Name zs)"
  then have "\<forall>z\<in>set zs. zf_Name z \<noteq> af_name af"
    by force
  then have "zip_extract_loop af (replicate (nat (af_size af)) 0) zs =
               ((Some (replicate (nat (af_size af)) 0), None), [])"
    by (rule zip_extract_loop_absent)
  with h assms show "GetBytes w af =
            (Inr (Some (replicate (nat (af_size af)) 0), None),
             [C_zip_OpenReader (af_archivefile af)])"
    by (simp add: GetBytes_def extractZipFileBytes_def make_bytes_in_range)
next
  fix zs
  assume h: "af_archivetype af = ARCHIVE_7Z
            \<and> sevenzip_OpenReader w (af_archivefile af) = Inr zs
            \<and> af_name af \<notin> set (map sf_Name zs)"
  then have "\<forall>z\<in>set zs. sf_Name z \<noteq> af_name af"
    by force
  then have "sevenzip_extract_loop af (replicate (nat (af_size af)) 0) zs =
               ((Some (replicate (nat (af_size af)) 0), None), [])"
    by (rule sevenzip_extract_loop_absent)
  with h assms show "GetBytes w af =
            (Inr (Some (replicate (nat (af_size af)) 0), None),
             [C_sevenzip_OpenReader (af_archivefile af)])"
    by (simp add: GetBytes_def extract7ZFileBytes_def make_bytes_in_range)
next
  fix fl hs e
  assume h: "af_archivetype af = ARCHIVE_TGZ
            \<and> os_Open w (af_archivefile af) = Inr fl
            \<and> gzip_NewReader w (af_archivefile af) = Inr (hs, e)
            \<and> af_name af \<notin> set (map (th_Name \<circ> fst) hs)"
  then have a: "\<forall>hr\<in>set (fst (hs, e)). th_Name (fst hr) \<noteq> af_name af"
    by force
  from h have o: "os_Open w (af_archivefile af) = Inr fl"
    and g: "gzip_NewReader w (af_archivefile af) = Inr (hs, e)"
    by simp_all
  show "GetBytes w af =
            (Inr (Some (replicate (nat (af_size af)) 0), Some e),
             [C_os_Open (af_archivefile af), C_gzip_NewReader (af_archivefile af)]
               @ replicate (Suc (length hs)) C_tar_Next @ [C_tar_Read])"
    using h extractTgzFileBytes_absent [OF o g assms a] by (simp add: GetBytes_def)
qed

theorem C4_absent_name_returns_zero_buffer_witness:
  "GetBytes (example_world 2) (absent_entry ''/data/a.zip'' ARCHIVE_ZIP) =
     (Inr (Some [0, 0, 0], None), [C_zip_OpenReader ''/data/a.zip''])
   \<and> GetBytes (example_world 2) (absent_entry ''/data/b.7z'' ARCHIVE_7Z) =
     (Inr (Some [0, 0, 0], None), [C_sevenzip_OpenReader ''/data/b.7z''])
   \<and> GetBytes (example_world 2) (absent_entry ''/data/c.tgz'' ARCHIVE_TGZ) =
     (Inr (Some [0, 0, 0], Some io_EOF),
      [C_os_Open ''/data/c.tgz'', C_gzip_NewReader ''/data/c.tgz'', C_tar_Next, C_tar_Next,
       C_tar_Next, C_tar_Read])"
proof -
  let ?w = "example_world 2"
  have n: "0 \<le> af_size (absent_entry c t)
           \<and> af_size (absent_entry c t) \<le> int (runtime_maxAlloc ?w)" for c t
    by (simp add: absent_entry_def example_world_def)
  have z: "zip_OpenReader ?w ''/data/a.zip'' = Inr (example_zip 2)"
    and s: "sevenzip_OpenReader ?w ''/data/b.7z'' = Inr (example_7z 2)"
    and o: "os_Open ?w ''/data/c.tgz'' = Inr (bytes_reader 4096 [0x1F, 0x8B, 0x08, 0x00, 0x00, 0x00])"
    and g: "gzip_NewReader ?w ''/data/c.tgz'' = Inr (example_tar 2, io_EOF)"
    by (simp_all add: example_world_def at_path_def)
  have a: "''missing.txt'' \<notin> set (map zf_Name (example_zip 2))"
    "''missing.txt'' \<notin> set (map sf_Name (example_7z 2))"
    "''missing.txt'' \<notin> set (map (th_Name \<circ> fst) (example_tar 2))"
    "length (example_tar 2) = 2"
    by (simp_all add: example_zip_def example_7z_def example_tar_def)
  show ?thesis
    using
      C4_absent_name_returns_zero_buffer
        [where af = "absent_entry ''/data/a.zip'' ARCHIVE_ZIP" and w = ?w, OF n]
      C4_absent_name_returns_zero_buffer
        [where af = "absent_entry ''/data/b.7z'' ARCHIVE_7Z" and w = ?w, OF n]
      C4_absent_name_returns_zero_buffer
        [where af = "absent_entry ''/data/c.tgz'' ARCHIVE_TGZ" and w = ?w, OF n]
      z s o g a
    by (simp add: absent_entry_def eval_nat_numeral)
qed

text \<open>
  The claim as stated fails on a ZIP container: asked for a name that is not there, with
  a recorded size of 3, extraction returns three zero bytes, not a zero-length sequence.
\<close>

theorem C4_zero_length_counterexample:
  "''missing.txt'' \<notin> set (map zf_Name (example_zip 2))
   \<and> zip_OpenReader (example_world 2) ''/data/a.zip'' = Inr (example_zip 2)
   \<and> fst (GetBytes (example_world 2) (absent_entry ''/data/a.zip'' ARCHIVE_ZIP))
       = Inr (Some [0, 0, 0], None)
   \<and> length [0::byte, 0, 0] \<noteq> 0"
proof -
  have a: "''missing.txt'' \<notin> set (map zf_Name (example_zip 2))"
    by (simp add: example_zip_def)
  have z: "zip_OpenReader (example_world 2) ''/data/a.zip'' = Inr (example_zip 2)"
    "runtime_maxAlloc (example_world 2) = 281474976710656"
    by (simp_all add: example_world_def at_path_def)
  have "fst (GetBytes (example_world 2) (absent_entry ''/data/a.zip'' ARCHIVE_ZIP))
       = Inr (Some (replicate (nat 3) 0), None)"
    by (simp add: GetBytes_def extractZipFileBytes_def make_bytes_def absent_entry_def z
        example_zip_def)
  then have g: "fst (GetBytes (example_world 2) (absent_entry ''/data/a.zip'' ARCHIVE_ZIP))
       = Inr (Some [0, 0, 0], None)"
    by (simp add: eval_nat_numeral)
  show ?thesis
    using a z(1) g by simp
qed

subsection \<open>C5\<close>

text \<open>
  C5: for ZIP and 7z the cataloger ends in one of two ways only: the open fails, the handle
  is returned as it was, with no entry appended, and the error is the open's error wrapped
  in a message that names the path; or the open succeeds, every member is appended and no
  error is returned. For gzipped tar a stream that yields some headers and then fails with
  an error other than end-of-stream leaves the entries of those headers appended and
  returns that error.
\<close>

theorem C5_catalog_all_or_nothing:
  "(\<forall>e. zip_OpenReader w (ai_fullname ar) = Inl e \<longrightarrow>
        fst (loadFilesInZipArchive w ar) = (ar, Some (Errorf_Could_not_open (ai_fullname ar) e))
        \<and> Error (Errorf_Could_not_open (ai_fullname ar) e)
            = ''Could not open '' @ ai_fullname ar @ ''.  '' @ Error e)
   \<and> (\<forall>zs. zip_OpenReader w (ai_fullname ar) = Inr zs \<longrightarrow>
        fst (loadFilesInZipArchive w ar) =
          (ar\<lparr>ai_files := ai_files ar @ map (zip_ArchivedFile (ai_fullname ar)) zs\<rparr>, None))
   \<and> (\<forall>e. sevenzip_OpenReader w (ai_fullname ar) = Inl e \<longrightarrow>
        fst (loadFilesIn7ZArchive w ar) = (ar, Some (Errorf_Could_not_open (ai_fullname ar) e))
        \<and> Error (Errorf_Could_not_open (ai_fullname ar) e)
            = ''Could not open '' @ ai_fullname ar @ ''.  '' @ Error e)
   \<and> (\<forall>zs. sevenzip_OpenReader w (ai_fullname ar) = Inr zs \<longrightarrow>
        fst (loadFilesIn7ZArchive w ar) =
          (ar\<lparr>ai_files := ai_files ar @ map (sevenzip_ArchivedFile (ai_fullname ar)) zs\<rparr>, None))
   \<and> (\<forall>fl hs e. os_Open w (ai_fullname ar) = Inr fl
          \<and> gzip_NewReader w (ai_fullname ar) = Inr (hs, e) \<and> hs \<noteq> [] \<and> e \<noteq> io_EOF \<longrightarrow>
        fst (loadFilesInTgzArchive w ar) =
          (ar\<lparr>ai_files := ai_files ar @ map (tgz_ArchivedFile (ai_fullname ar) \<circ> fst) hs\<rparr>,
           Some e))"
proof -
  have z: "\<forall>e. zip_OpenReader w (ai_fullname ar) = Inl e \<longrightarrow>
        fst (loadFilesInZipArchive w ar) = (ar, Some (Errorf_Could_not_open (ai_fullname ar) e))
        \<and> Error (Errorf_Could_not_open (ai_fullname ar) e)
            = ''Could not open '' @ ai_fullname ar @ ''.  '' @ Error e"
    by (simp add: loadFilesInZipArchive_def)
  have z': "\<forall>zs. zip_OpenReader w (ai_fullname ar) = Inr zs \<longrightarrow>
        fst (loadFilesInZipArchive w ar) =
          (ar\<lparr>ai_files := ai_files ar @ map (zip_ArchivedFile (ai_fullname ar)) zs\<rparr>, None)"
    by (simp add: loadFilesInZipArchive_def zip_load_loop_eq)
  have s: "\<forall>e. sevenzip_OpenReader w (ai_fullname ar) = Inl e \<longrightarrow>
        fst (loadFilesIn7ZArchive w ar) = (ar, Some (Errorf_Could_not_open (ai_fullname ar) e))
        \<and> Error (Errorf_Could_not_open (ai_fullname ar) e)
            = ''Could not open '' @ ai_fullname ar @ ''.  '' @ Error e"
    by (simp add: loadFilesIn7ZArchive_def)
  have s': "\<forall>zs. sevenzip_OpenReader w (ai_fullname ar) = Inr zs \<longrightarrow>
        fst (loadFilesIn7ZArchive w ar) =
          (ar\<lparr>ai_files := ai_files ar @ map (sevenzip_ArchivedFile (ai_fullname ar)) zs\<rparr>, None)"
    by (simp add: loadFilesIn7ZArchive_def sevenzip_load_loop_eq)
  have t: "\<forall>fl hs e. os_Open w (ai_fullname ar) = Inr fl
          \<and> gzip_NewReader w (ai_fullname ar) = Inr (hs, e) \<and> hs \<noteq> [] \<and> e \<noteq> io_EOF \<longrightarrow>
        fst (loadFilesInTgzArchive w ar) =
          (ar\<lparr>ai_files := ai_files ar @ map (tgz_ArchivedFile (ai_fullname ar) \<circ> fst) hs\<rparr>,
           Some e)"
    by (simp add: loadFilesInTgzArchive_opened)
  from z z' s s' t show ?thesis
    by (intro conjI)
qed

theorem C5_catalog_all_or_nothing_witness:
  "fst (loadFilesInZipArchive (example_world 1) (arinstance\<lparr>ai_fullname := ''/data/bad.zip''\<rparr>)) =
     (arinstance\<lparr>ai_fullname := ''/data/bad.zip''\<rparr>,
      Some (Errorf_Could_not_open ''/data/bad.zip'' (lib_error ''zip: not a valid zip file'')))
   \<and> Error (Errorf_Could_not_open ''/data/bad.zip'' (lib_error ''zip: not a valid zip file''))
       = ''Could not open /data/bad.zip.  zip: not a valid zip file''
   \<and> fst (loadFilesInZipArchive (example_world 1) (arinstance\<lparr>ai_fullname := ''/data/a.zip''\<rparr>)) =
     (arinstance\<lparr>ai_fullname := ''/data/a.zip'',
        ai_files := map (zip_ArchivedFile ''/data/a.zip'') (example_zip 1)\<rparr>, None)
   \<and> fst (loadFilesIn7ZArchive (example_world 1) (arinstance\<lparr>ai_fullname := ''/data/bad.7z''\<rparr>)) =
     (arinstance\<lparr>ai_fullname := ''/data/bad.7z''\<rparr>,
      Some (Errorf_Could_not_open ''/data/bad.7z'' (lib_error ''sevenzip: not a valid 7-zip file'')))
   \<and> fst (loadFilesIn7ZArchive (example_world 1) (arinstance\<lparr>ai_fullname := ''/data/b.7z''\<rparr>)) =
     (arinstance\<lparr>ai_fullname := ''/data/b.7z'',
        ai_files := map (sevenzip_ArchivedFile ''/data/b.7z'') (example_7z 1)\<rparr>, None)
   \<and> fst (loadFilesInTgzArchive (example_world 1) (arinstance\<lparr>ai_fullname := ''/data/bad.tgz''\<rparr>)) =
     (arinstance\<lparr>ai_fullname := ''/data/bad.tgz'',
        ai_files := [tgz_ArchivedFile ''/data/bad.tgz'' (fst (example_tar 1 ! 0))]\<rparr>,
      Some (lib_error ''unexpected EOF''))"
proof -
  let ?w = "example_world 1"
  have z: "zip_OpenReader ?w ''/data/bad.zip'' = Inl (lib_error ''zip: not a valid zip file'')"
    and z': "zip_OpenReader ?w ''/data/a.zip'' = Inr (example_zip 1)"
    and s: "sevenzip_OpenReader ?w ''/data/bad.7z'' = Inl (lib_error ''sevenzip: not a valid 7-zip file'')"
    and s': "sevenzip_OpenReader ?w ''/data/b.7z'' = Inr (example_7z 1)"
    and o: "os_Open ?w ''/data/bad.tgz'' = Inr (bytes_reader 4096 [0x1F, 0x8B, 0x08, 0x00, 0xFF, 0xFF])"
    and g: "gzip_NewReader ?w ''/data/bad.tgz'' = Inr (take 1 (example_tar 1), lib_error ''unexpected EOF'')"
    by (simp_all add: example_world_def at_path_def)
  have ne: "take 1 (example_tar 1) \<noteq> []" "lib_error ''unexpected EOF'' \<noteq> io_EOF"
    by (simp_all add: example_tar_def)
  show ?thesis
    using
      C5_catalog_all_or_nothing [of ?w "arinstance\<lparr>ai_fullname := ''/data/bad.zip''\<rparr>"]
      C5_catalog_all_or_nothing [of ?w "arinstance\<lparr>ai_fullname := ''/data/a.zip''\<rparr>"]
      C5_catalog_all_or_nothing [of ?w "arinstance\<lparr>ai_fullname := ''/data/bad.7z''\<rparr>"]
      C5_catalog_all_or_nothing [of ?w "arinstance\<lparr>ai_fullname := ''/data/b.7z''\<rparr>"]
      C5_catalog_all_or_nothing [of ?w "arinstance\<lparr>ai_fullname := ''/data/bad.tgz''\<rparr>"]
      z z' s s' o g ne
    by (simp add: arinstance_def example_tar_def)
qed

subsection \<open>C6\<close>

text \<open>
  C6, as amended: in what \<open>GetArchiveInfo\<close> returns, the entries list is non-empty only
  after a cataloger's codec call; with an error returned it is non-empty only for a
  gzipped tar (whose stream failed after some headers); and whenever the type is
  NotAnArchive or Uninitialized the list is empty, no call of a cataloger or extractor was
  made, and the file was opened at most once (by the detection).
\<close>

theorem C6_entries_and_catalogers:
  assumes "GetArchiveInfo w path = ((ar, err), cs)"
  shows "(ai_ArchiveType ar = ARCHIVE_NA \<or> ai_ArchiveType ar = ARCHIVE_UNINIT \<longrightarrow>
            ai_files ar = [] \<and> (\<forall>c\<in>set cs. \<not> codec_call c)
            \<and> count_list cs (C_os_Open (ai_fullname ar)) \<le> 1)
     \<and> (ai_files ar \<noteq> [] \<longrightarrow> (\<exists>c\<in>set cs. codec_call c))
     \<and> (ai_files ar \<noteq> [] \<and> err \<noteq> None \<longrightarrow> ai_ArchiveType ar = ARCHIVE_TGZ)"
proof (cases rule: GetArchiveInfo_cases [where w = w and path = path])
  case (not_cataloged ar' err' cs')
  with assms show ?thesis by simp
next
  case (zip ar1 fl cs')
  with assms show ?thesis
    by (cases rule: loadFilesInZipArchive_cases [where w = w and ar = ar1]) auto
next
  case (sevenzip ar1 fl cs')
  with assms show ?thesis
    by (cases rule: loadFilesIn7ZArchive_cases [where w = w and ar = ar1]) auto
next
  case (tgz ar1 fl cs')
  with assms show ?thesis
    by (cases rule: loadFilesInTgzArchive_cases [where w = w and ar = ar1]) auto
qed

theorem C6_entries_and_catalogers_witness:
  "ai_ArchiveType (fst (fst (GetArchiveInfo (example_world 2) ''/data/notes.txt''))) = ARCHIVE_NA
   \<and> ai_files (fst (fst (GetArchiveInfo (example_world 2) ''/data/notes.txt''))) = []
   \<and> list_all (\<lambda>c. \<not> codec_call c) (snd (GetArchiveInfo (example_world 2) ''/data/notes.txt''))
   \<and> ai_files (fst (fst (GetArchiveInfo (example_world 2) ''/data/bad.tgz''))) \<noteq> []
   \<and> snd (fst (GetArchiveInfo (example_world 2) ''/data/bad.tgz'')) \<noteq> None
   \<and> ai_ArchiveType (fst (fst (GetArchiveInfo (example_world 2) ''/data/bad.tgz''))) = ARCHIVE_TGZ
   \<and> list_ex codec_call (snd (GetArchiveInfo (example_world 2) ''/data/bad.tgz''))"
proof -
  have a: "ai_ArchiveType (fst (fst (GetArchiveInfo (example_world 2) ''/data/notes.txt''))) = ARCHIVE_NA"
    by (simp add: example_notes_info)
  have b: "ai_files (fst (fst (GetArchiveInfo (example_world 2) ''/data/bad.tgz''))) \<noteq> []"
    "snd (fst (GetArchiveInfo (example_world 2) ''/data/bad.tgz'')) \<noteq> None"
    by (simp_all add: example_bad_tgz_info)
  have n: "ai_files (fst (fst (GetArchiveInfo (example_world 2) ''/data/notes.txt''))) = []
    \<and> (\<forall>c\<in>set (snd (GetArchiveInfo (example_world 2) ''/data/notes.txt'')). \<not> codec_call c)"
    using C6_entries_and_catalogers [of "example_world 2" "''/data/notes.txt''"
        "fst (fst (GetArchiveInfo (example_world 2) ''/data/notes.txt''))"
        "snd (fst (GetArchiveInfo (example_world 2) ''/data/notes.txt''))"
        "snd (GetArchiveInfo (example_world 2) ''/data/notes.txt'')"] a
    by simp
  have t: "ai_ArchiveType (fst (fst (GetArchiveInfo (example_world 2) ''/data/bad.tgz''))) = ARCHIVE_TGZ
    \<and> (\<exists>c\<in>set (snd (GetArchiveInfo (example_world 2) ''/data/bad.tgz'')). codec_call c)"
    using C6_entries_and_catalogers [of "example_world 2" "''/data/bad.tgz''"
        "fst (fst (GetArchiveInfo (example_world 2) ''/data/bad.tgz''))"
        "snd (fst (GetArchiveInfo (example_world 2) ''/data/bad.tgz''))"
        "snd (GetArchiveInfo (example_world 2) ''/data/bad.tgz'')"] b
    by simp
  show ?thesis
    using a b n t by (simp add: list_all_iff list_ex_iff)
qed

text \<open>
  The claim as stated fails on a gzipped tar whose stream breaks after its first header:
  cataloging returns an error, so it has not succeeded, yet the entries list holds the
  entry of that header.
\<close>

theorem C6_partial_catalog_counterexample:
  "snd (fst (GetArchiveInfo (example_world 2) ''/data/bad.tgz''))
     = Some (lib_error ''unexpected EOF'')
   \<and> map af_name (ai_files (fst (fst (GetArchiveInfo (example_world 2) ''/data/bad.tgz''))))
     = [''d/'']
   \<and> ai_files (fst (fst (GetArchiveInfo (example_world 2) ''/data/bad.tgz''))) \<noteq> []"
  by (simp add: example_bad_tgz_info tgz_ArchivedFile_def example_tar_def)

subsection \<open>C7\<close>

text \<open>
  C7: when the file's size is below 5, detection sets NotAnArchive, returns no error and
  makes no call at all: the file is neither opened nor read.
\<close>

theorem C7_small_file_not_an_archive:
  "ai_size ar < 5 \<Longrightarrow>
   getArchiveType w ar = ((ar\<lparr>ai_ArchiveType := ARCHIVE_NA\<rparr>, None), [])"
  by (simp add: getArchiveType_def)

theorem C7_small_file_not_an_archive_witness:
  "ai_size (arinstance\<lparr>ai_fullname := ''/data/tiny'', ai_size := 3\<rparr>) < 5
   \<and> getArchiveType (example_world 1) (arinstance\<lparr>ai_fullname := ''/data/tiny'', ai_size := 3\<rparr>) =
       ((arinstance\<lparr>ai_fullname := ''/data/tiny'', ai_size := 3, ai_ArchiveType := ARCHIVE_NA\<rparr>,
         None), [])"
proof -
  have h: "ai_size (arinstance\<lparr>ai_fullname := ''/data/tiny'', ai_size := 3\<rparr>) < 5"
    by simp
  show ?thesis
    using h C7_small_file_not_an_archive [OF h, of "example_world 1"] by simp
qed

subsection \<open>C8\<close>

text \<open>
  C8: an entry whose type tag is none of Zip, SevenZip and GzippedTar gets the error
  "unsupported archive type" and no bytes, without a panic and without any call; each of
  the three known tags goes to its own extractor.
\<close>

theorem C8_GetBytes_dispatch:
  "(af_archivetype af \<noteq> ARCHIVE_ZIP \<and> af_archivetype af \<noteq> ARCHIVE_7Z
      \<and> af_archivetype af \<noteq> ARCHIVE_TGZ \<longrightarrow>
      GetBytes w af = (Inr (None, Some (errors_New ''unsupported archive type'')), []))
   \<and> (af_archivetype af = ARCHIVE_ZIP \<longrightarrow> GetBytes w af = extractZipFileBytes w af)
   \<and> (af_archivetype af = ARCHIVE_7Z \<longrightarrow> GetBytes w af = extract7ZFileBytes w af)
   \<and> (af_archivetype af = ARCHIVE_TGZ \<longrightarrow> GetBytes w af = extractTgzFileBytes w af)"
  by (simp add: GetBytes_def)

theorem C8_GetBytes_dispatch_witness:
  "GetBytes (example_world 1) ((ai_files example_catalog ! 0)\<lparr>af_archivetype := ARCHIVE_NA\<rparr>) =
     (Inr (None, Some (errors_New ''unsupported archive type'')), [])
   \<and> GetBytes (example_world 1) ((ai_files example_catalog ! 0)\<lparr>af_archivetype := 7\<rparr>) =
     (Inr (None, Some (errors_New ''unsupported archive type'')), [])
   \<and> GetBytes (example_world 1) ((ai_files example_catalog ! 0)\<lparr>af_archivetype := ARCHIVE_ZIP\<rparr>) =
     extractZipFileBytes (example_world 1) ((ai_files example_catalog ! 0)\<lparr>af_archivetype := ARCHIVE_ZIP\<rparr>)
   \<and> GetBytes (example_world 1) ((ai_files example_catalog ! 0)\<lparr>af_archivetype := ARCHIVE_7Z\<rparr>) =
     extract7ZFileBytes (example_world 1) ((ai_files example_catalog ! 0)\<lparr>af_archivetype := ARCHIVE_7Z\<rparr>)
   \<and> GetBytes (example_world 1) ((ai_files example_catalog ! 0)\<lparr>af_archivetype := ARCHIVE_TGZ\<rparr>) =
     extractTgzFileBytes (example_world 1) ((ai_files example_catalog ! 0)\<lparr>af_archivetype := ARCHIVE_TGZ\<rparr>)"
  using
    C8_GetBytes_dispatch [of "(ai_files example_catalog ! 0)\<lparr>af_archivetype := ARCHIVE_NA\<rparr>" "example_world 1"]
    C8_GetBytes_dispatch [of "(ai_files example_catalog ! 0)\<lparr>af_archivetype := 7\<rparr>" "example_world 1"]
    C8_GetBytes_dispatch [of "(ai_files example_catalog ! 0)\<lparr>af_archivetype := ARCHIVE_ZIP\<rparr>" "example_world 1"]
    C8_GetBytes_dispatch [of "(ai_files example_catalog ! 0)\<lparr>af_archivetype := ARCHIVE_7Z\<rparr>" "example_world 1"]
    C8_GetBytes_dispatch [of "(ai_files example_catalog ! 0)\<lparr>af_archivetype := ARCHIVE_TGZ\<rparr>" "example_world 1"]
  by simp

subsection \<open>C9\<close>



subsection \<open>C10\<close>

text \<open>
  C10: the entry built from a tar header has its directory flag false whatever the header
  says, so every entry that the gzipped-tar cataloger appends, and every entry of a
  handle that \<open>GetArchiveInfo\<close> returns with type GzippedTar, has the flag false.
\<close>

theorem C10_tgz_entries_not_directories:
  "(\<forall>head. \<not> af_IsDir (tgz_ArchivedFile fullname head))
   \<and> (\<forall>f\<in>set (drop (length (ai_files ar)) (ai_files (fst (fst (loadFilesInTgzArchive w ar))))).
         \<not> af_IsDir f)
   \<and> (ai_ArchiveType (fst (fst (GetArchiveInfo w path))) = ARCHIVE_TGZ \<longrightarrow>
        (\<forall>f\<in>set (ai_files (fst (fst (GetArchiveInfo w path)))). \<not> af_IsDir f))"
proof (intro conjI)
  show a: "\<forall>head. \<not> af_IsDir (tgz_ArchivedFile fullname head)"
    by (simp add: tgz_ArchivedFile_def)
  show "\<forall>f\<in>set (drop (length (ai_files ar)) (ai_files (fst (fst (loadFilesInTgzArchive w ar))))).
         \<not> af_IsDir f"
  proof -
    obtain hs where "ai_files (fst (fst (loadFilesInTgzArchive w ar))) =
          ai_files ar @ map (tgz_ArchivedFile (ai_fullname ar)) hs"
      using loadFilesInTgzArchive_files by blast
    then show ?thesis
      by (auto simp: tgz_ArchivedFile_def)
  qed
  show "ai_ArchiveType (fst (fst (GetArchiveInfo w path))) = ARCHIVE_TGZ \<longrightarrow>
        (\<forall>f\<in>set (ai_files (fst (fst (GetArchiveInfo w path)))). \<not> af_IsDir f)"
  proof (cases rule: GetArchiveInfo_cases [where w = w and path = path])
    case (not_cataloged ar err cs)
    then show ?thesis by simp
  next
    case (zip ar1 fl cs)
    then show ?thesis by (simp add: loadFilesInZipArchive_type)
  next
    case (sevenzip ar1 fl cs)
    then show ?thesis by (simp add: loadFilesIn7ZArchive_type)
  next
    case (tgz ar1 fl cs)
    obtain hs where "ai_files (fst (fst (loadFilesInTgzArchive w ar1))) =
          ai_files ar1 @ map (tgz_ArchivedFile (ai_fullname ar1)) hs"
      using loadFilesInTgzArchive_files by blast
    with tgz show ?thesis
      by (auto simp: tgz_ArchivedFile_def)
  qed
qed

theorem C10_tgz_entries_not_directories_witness:
  "th_Typeflag (fst (example_tar 4096 ! 0)) = 0x35
   \<and> ai_ArchiveType (fst (fst (GetArchiveInfo (example_world 4096) ''/data/c.tgz''))) = ARCHIVE_TGZ
   \<and> map af_name (ai_files (fst (fst (GetArchiveInfo (example_world 4096) ''/data/c.tgz''))))
       = [''d/'', ''d/c.txt'']
   \<and> map af_IsDir (ai_files (fst (fst (GetArchiveInfo (example_world 4096) ''/data/c.tgz''))))
       = [False, False]"
proof -
  have g: "fst (fst (GetArchiveInfo (example_world 4096) ''/data/c.tgz'')) =
     \<lparr>ai_path = ''/data'', ai_name = ''c.tgz'', ai_fullname = ''/data/c.tgz'', ai_size = 150,
      ai_ArchiveType = ARCHIVE_TGZ,
      ai_files = map (tgz_ArchivedFile ''/data/c.tgz'' \<circ> fst) (example_tar 4096)\<rparr>"
    by (simp add: GetArchiveInfo_def GetArchiveInfo_file_def getArchiveType_def Read_def
        loadFilesInTgzArchive_opened example_world_def example_Dir_def example_Base_def
        at_path_def bytes_reader_def arinstance_def Let_def)
  have t: "th_Typeflag (fst (example_tar 4096 ! 0)) = 0x35"
    by (simp add: example_tar_def)
  have n: "map af_name (ai_files (fst (fst (GetArchiveInfo (example_world 4096) ''/data/c.tgz''))))
       = [''d/'', ''d/c.txt'']"
    by (simp add: g example_tar_def tgz_ArchivedFile_def)
  have "\<forall>f\<in>set (ai_files (fst (fst (GetArchiveInfo (example_world 4096) ''/data/c.tgz'')))). \<not> af_IsDir f"
    using C10_tgz_entries_not_directories [of "''/data/c.tgz''" arinstance "example_world 4096" "''/data/c.tgz''"]
    by (simp add: g)
  then have d: "map af_IsDir (ai_files (fst (fst (GetArchiveInfo (example_world 4096) ''/data/c.tgz''))))
       = [False, False]"
    by (simp add: g example_tar_def)
  show ?thesis
    using g t n d by simp
qed

end
